theory Spec2Isabelle
  imports Complex_Main "HOL-Library.Multiset" "HOL-Library.Sublist" "HOL-Library.Log_Nat"
begin

section \<open>Python values and exceptions\<close>

text \<open>
  The retrieval pipeline is Python. A float is the real number it denotes (no infinities,
  no NaN). The score \<open>1 - d\<close> of the retriever is taken exactly; where the result depends
  on how a float operation rounds, in \<open>_calculate_confidence\<close>, the operation is followed by
  the rounding to binary64. Python lists are HOL lists; dictionaries with a fixed set of keys
  are records, the dictionary of running timers is a map, a metadata dictionary is the list
  of its items. An exception is a value: a function that may raise returns
  \<open>py_error + 'a\<close>, with \<open>Inl\<close> the exception. Log output is modelled for the timers only.
\<close>

datatype py_error =
    IndexError
  | KeyError
  | ValueError
  | ExternalError string  \<comment> \<open>any exception raised by the vector index itself\<close>

definition bind_exc :: "py_error + 'a \<Rightarrow> ('a \<Rightarrow> py_error + 'b) \<Rightarrow> py_error + 'b" where
  "bind_exc m f = (case m of Inl e \<Rightarrow> Inl e | Inr v \<Rightarrow> f v)"

text \<open>\<open>xs[i]\<close> for an index \<open>i \<ge> 0\<close>: raises IndexError out of range.\<close>

definition py_get :: "'a list \<Rightarrow> nat \<Rightarrow> py_error + 'a" where
  "py_get xs i = (if i < length xs then Inr (xs ! i) else Inl IndexError)"

text \<open>\<open>max(xs)\<close> raises ValueError on an empty sequence and keeps the first largest item.\<close>

definition py_max :: "'a::linorder list \<Rightarrow> py_error + 'a" where
  "py_max xs =
     (case xs of
        [] \<Rightarrow> Inl ValueError
      | x # rest \<Rightarrow> Inr (fold (\<lambda>y m. if m < y then y else m) rest x))"

text \<open>\<open>max(xs, key=f)\<close>, likewise.\<close>

definition py_max_key :: "('a \<Rightarrow> 'k::linorder) \<Rightarrow> 'a list \<Rightarrow> py_error + 'a" where
  "py_max_key f xs =
     (case xs of
        [] \<Rightarrow> Inl ValueError
      | x # rest \<Rightarrow> Inr (fold (\<lambda>y m. if f m < f y then y else m) rest x))"

text \<open>
  The decimal rounding inside \<open>round(x, ndigits)\<close>: the exact value of \<open>x\<close> goes to the
  nearest multiple of \<open>10 ^ - ndigits\<close>, a tie to the even neighbour.
\<close>

definition round_half_even :: "real \<Rightarrow> int" where
  "round_half_even x =
     (let f = \<lfloor>x\<rfloor>; r = x - of_int f
      in if r < 1 / 2 then f else if 1 / 2 < r then f + 1 else if even f then f else f + 1)"

definition py_round :: "real \<Rightarrow> nat \<Rightarrow> real" where
  "py_round x ndigits = of_int (round_half_even (x * 10 ^ ndigits)) / 10 ^ ndigits"

text \<open>
  Rounding to binary64, to nearest with ties to even: 53 significant bits, the exponent of
  the leading bit at least \<open>-1022\<close> (below that the spacing stays \<open>2 ^ -1074\<close>). Overflow is
  not modelled. \<open>float_exponent x\<close> is the exponent of the leading bit of \<open>x > 0\<close>, from the
  bit length of \<open>\<lfloor>x\<rfloor>\<close>, or of \<open>\<lceil>1 / x\<rceil> - 1\<close> below 1. The product of two floats
  is \<open>binary64 (a * b)\<close>, and \<open>round(x, n)\<close> on a float is \<open>binary64 (py_round x n)\<close>: the
  decimal value nearest to \<open>x\<close>, read back as a float.
\<close>

definition pow2 :: "int \<Rightarrow> real" where
  "pow2 e = (if 0 \<le> e then 2 ^ nat e else 1 / 2 ^ nat (- e))"

definition float_exponent :: "real \<Rightarrow> int" where
  "float_exponent x =
     (if 1 \<le> x then int (floorlog 2 (nat \<lfloor>x\<rfloor>)) - 1
      else - int (floorlog 2 (nat (\<lceil>1 / x\<rceil> - 1))))"

definition binary64_pos :: "real \<Rightarrow> real" where
  "binary64_pos x =
     (let e = max (float_exponent x) (- 1022); ulp = pow2 (e - 52)
      in of_int (round_half_even (x / ulp)) * ulp)"

definition binary64 :: "real \<Rightarrow> real" where
  "binary64 x =
     (if x = 0 then 0 else if 0 < x then binary64_pos x else - binary64_pos (- x))"

text \<open>\<open>d[k]\<close> and \<open>del d[k]\<close> on a dictionary raise KeyError when the key is missing.\<close>

definition py_lookup :: "('k \<rightharpoonup> 'v) \<Rightarrow> 'k \<Rightarrow> py_error + 'v" where
  "py_lookup d k = (case d k of None \<Rightarrow> Inl KeyError | Some v \<Rightarrow> Inr v)"

definition py_del :: "('k \<rightharpoonup> 'v) \<Rightarrow> 'k \<Rightarrow> py_error + ('k \<rightharpoonup> 'v)" where
  "py_del d k = (case d k of None \<Rightarrow> Inl KeyError | Some v \<Rightarrow> Inr (d(k := None)))"

text \<open>
  A \<open>str\<close> is modelled as its UTF-8 bytes. \<open>len\<close> and slicing count code points, so
  continuation bytes (\<open>0x80\<close> to \<open>0xBF\<close>) are not counted and stay with their lead byte.
  \<open>lower()\<close> is modelled on the ASCII letters only; \<open>sub in s\<close> is substring search.
\<close>

definition is_continuation :: "char \<Rightarrow> bool" where
  "is_continuation c = (128 \<le> (of_char c :: nat) \<and> (of_char c :: nat) < 192)"

definition py_len :: "string \<Rightarrow> nat" where
  "py_len s = length (filter (\<lambda>c. \<not> is_continuation c) s)"

fun str_take :: "nat \<Rightarrow> string \<Rightarrow> string" where
  "str_take n [] = []"
| "str_take n (c # cs) =
     (if is_continuation c then c # str_take n cs
      else (case n of 0 \<Rightarrow> [] | Suc m \<Rightarrow> c # str_take m cs))"

definition lower_char :: "char \<Rightarrow> char" where
  "lower_char c =
     (let n = (of_char c :: nat) in if 65 \<le> n \<and> n \<le> 90 then char_of (n + 32) else c)"

definition py_lower :: "string \<Rightarrow> string" where
  "py_lower s = map lower_char s"

fun py_in :: "string \<Rightarrow> string \<Rightarrow> bool" where
  "py_in sub [] = (sub = [])"
| "py_in sub (c # cs) = (prefix sub (c # cs) \<or> py_in sub cs)"

text \<open>\<open>xs[:k]\<close> and \<open>xs[k:]\<close>: a negative bound counts from the end and is clipped at 0.\<close>

definition slice_to :: "'a list \<Rightarrow> int \<Rightarrow> 'a list" where
  "slice_to xs k = (if 0 \<le> k then take (nat k) xs else take (nat (int (length xs) + k)) xs)"

definition slice_from :: "'a list \<Rightarrow> int \<Rightarrow> 'a list" where
  "slice_from xs k = (if 0 \<le> k then drop (nat k) xs else drop (nat (int (length xs) + k)) xs)"

text \<open>
  \<open>sorted(xs, key=f, reverse=True)\<close> and \<open>xs.sort(key=f, reverse=True)\<close>: a stable sort of
  the reversed list, reversed again, so that equal keys keep their original order.
\<close>

definition sorted_reverse :: "('a \<Rightarrow> 'k::linorder) \<Rightarrow> 'a list \<Rightarrow> 'a list" where
  "sorted_reverse f xs = rev (sort_key f (rev xs))"

section \<open>The vector index reply and the ranked result\<close>

datatype scalar = SStr string | SInt int | SFloat real | SBool bool

text \<open>A metadata dictionary, as the list of its items; \<open>{}\<close> is the empty list.\<close>

type_synonym metadata = "(string \<times> scalar) list"

text \<open>
  \<open>QueryResult\<close> (chromadb's typed dictionary): one row per query text; \<open>ids\<close> is always a
  list, the included columns may be \<open>None\<close>.
\<close>

record QueryResult =
  ids :: "string list list"
  documents :: "string list list option"
  metadatas :: "metadata list list option"
  distances :: "real list list option"

text \<open>The dictionary built for each candidate (keys id, content, metadata, score, source).\<close>

record ranked_result =
  res_id :: string
  res_content :: string
  res_metadata :: metadata
  res_score :: real
  res_source :: string

text \<open>
  The external collection: \<open>collection.query(query_texts=[q], n_results=n, where=f)\<close> either
  raises or replies. It is a parameter of everything below.
\<close>

type_synonym collection = "string \<Rightarrow> int \<Rightarrow> metadata option \<Rightarrow> py_error + QueryResult"

definition TOP_K_RESULTS :: int where
  "TOP_K_RESULTS = 5"

section \<open>backend/vector_store.py and backend/retriever.py\<close>

text \<open>
  \<open>VectorStore.search\<close>: the filter is passed only when it is truthy (not \<open>None\<close>, not the
  empty dictionary); the result count for the log line is read behind a guard; an exception
  of the collection is re-raised.
\<close>

definition search :: "collection \<Rightarrow> string \<Rightarrow> int \<Rightarrow> metadata option \<Rightarrow> py_error + QueryResult" where
  "search coll query n_results metadata_filter =
     bind_exc
       (coll query n_results
          (case metadata_filter of
             None \<Rightarrow> None
           | Some f \<Rightarrow> if f \<noteq> [] then Some f else None))
       (\<lambda>results.
          bind_exc
            (if ids results \<noteq> [] \<and> 0 < length (ids results)
             then bind_exc (py_get (ids results) 0) (\<lambda>row. Inr (length row))
             else Inr 0)
            (\<lambda>result_count. Inr results))"

text \<open>
  \<open>HybridRetriever._vector_search\<close>: the f-string of its debug line evaluates
  \<open>len(results['ids'][0])\<close> with no guard, whatever the log level.
\<close>

definition vector_search :: "collection \<Rightarrow> string \<Rightarrow> int \<Rightarrow> metadata option \<Rightarrow> py_error + QueryResult" where
  "vector_search coll query top_k metadata_filter =
     bind_exc (search coll query top_k metadata_filter)
       (\<lambda>results. bind_exc (py_get (ids results) 0) (\<lambda>row. Inr results))"

text \<open>\<open>vector_results[key][0] if vector_results[key] else []\<close>\<close>

definition first_row :: "'a list list option \<Rightarrow> py_error + 'a list" where
  "first_row col =
     (case col of
        None \<Rightarrow> Inr []
      | Some rows \<Rightarrow> if rows \<noteq> [] then py_get rows 0 else Inr [])"

text \<open>
  The loop \<open>for i, doc_id in enumerate(ids[:top_k])\<close> of \<open>_combine_results\<close>; \<open>i\<close> is the
  running index, \<open>combined\<close> the list appended to.
\<close>

fun combine_loop :: "nat \<Rightarrow> string list \<Rightarrow> string list \<Rightarrow> metadata list \<Rightarrow> real list
    \<Rightarrow> ranked_result list \<Rightarrow> py_error + ranked_result list" where
  "combine_loop i [] docs metas dists combined = Inr combined"
| "combine_loop i (doc_id # rest) docs metas dists combined =
     bind_exc (if i < length docs then py_get docs i else Inr '''') (\<lambda>content.
     bind_exc (if i < length metas then py_get metas i else Inr []) (\<lambda>metadata.
     bind_exc (if i < length dists
               then bind_exc (py_get dists i) (\<lambda>d. Inr (1 - d))
               else Inr 1) (\<lambda>score.
     combine_loop (Suc i) rest docs metas dists
       (combined @ [\<lparr>res_id = doc_id, res_content = content, res_metadata = metadata,
                     res_score = score, res_source = ''vector''\<rparr>]))))"

text \<open>Lines 82 to 114 of \<open>_combine_results\<close>: the list \<open>combined\<close> before it is sorted.\<close>

definition build_combined :: "QueryResult \<Rightarrow> int \<Rightarrow> py_error + ranked_result list" where
  "build_combined vector_results top_k =
     (if ids vector_results \<noteq> [] \<and> 0 < length (ids vector_results)
      then bind_exc (py_get (ids vector_results) 0) (\<lambda>row.
        if 0 < length row
        then
          bind_exc (py_get (ids vector_results) 0) (\<lambda>ids0.
          bind_exc (first_row (documents vector_results)) (\<lambda>docs.
          bind_exc (first_row (metadatas vector_results)) (\<lambda>metas.
          bind_exc (first_row (distances vector_results)) (\<lambda>dists.
          combine_loop 0 (slice_to ids0 top_k) docs metas dists []))))
        else Inr [])
      else Inr [])"

text \<open>\<open>_combine_results\<close>: sort by score, highest first, and return \<open>combined[:top_k]\<close>.\<close>

definition combine_results :: "QueryResult \<Rightarrow> int \<Rightarrow> py_error + ranked_result list" where
  "combine_results vector_results top_k =
     bind_exc (build_combined vector_results top_k)
       (\<lambda>combined. Inr (slice_to (sorted_reverse res_score combined) top_k))"

text \<open>\<open>HybridRetriever.retrieve\<close>; its \<open>except\<close> clause logs and re-raises.\<close>

definition retrieve :: "collection \<Rightarrow> string \<Rightarrow> int \<Rightarrow> metadata option \<Rightarrow> py_error + ranked_result list" where
  "retrieve coll query top_k metadata_filter =
     bind_exc (vector_search coll query top_k metadata_filter)
       (\<lambda>vector_results. combine_results vector_results top_k)"

section \<open>backend/context_manager.py\<close>

text \<open>
  The two dataclasses. A timestamp is the clock reading at which the message was built
  (\<open>datetime.now()\<close>), passed in by the caller of the model.
\<close>

record Message =
  msg_role :: string
  msg_content :: string
  msg_timestamp :: real
  msg_metadata :: "metadata option"

record RetrievedDocument =
  doc_id :: string
  doc_content :: string
  doc_score :: real
  doc_metadata :: "metadata option"

text \<open>
  A document dictionary handed to \<open>add_retrieved_documents\<close>: each of the four keys it
  reads may be missing (\<open>None\<close> here), and \<open>doc.get(key, default)\<close> supplies the default.
\<close>

record doc_dict =
  get_id :: "string option"
  get_content :: "string option"
  get_score :: "real option"
  get_metadata :: "metadata option"

record ContextManager =
  max_context_length :: int
  conversation_history :: "Message list"
  retrieved_documents :: "RetrievedDocument list"
  current_query :: "string option"

text \<open>The dictionary returned by \<open>get_context_window\<close> (\<open>asdict\<close> keeps every field).\<close>

record context_window =
  window_history :: "Message list"
  window_documents :: "RetrievedDocument list"
  window_query :: "string option"

definition ContextManager_init :: "int \<Rightarrow> ContextManager" where
  "ContextManager_init n =
     \<lparr>max_context_length = n, conversation_history = [], retrieved_documents = [],
      current_query = None\<rparr>"

definition add_user_message :: "ContextManager \<Rightarrow> string \<Rightarrow> metadata option \<Rightarrow> real \<Rightarrow> ContextManager" where
  "add_user_message cm content metadata now =
     cm\<lparr>conversation_history := conversation_history cm @
          [\<lparr>msg_role = ''user'', msg_content = content, msg_timestamp = now,
            msg_metadata = metadata\<rparr>]\<rparr>"

definition add_assistant_message :: "ContextManager \<Rightarrow> string \<Rightarrow> metadata option \<Rightarrow> real \<Rightarrow> ContextManager" where
  "add_assistant_message cm content metadata now =
     cm\<lparr>conversation_history := conversation_history cm @
          [\<lparr>msg_role = ''assistant'', msg_content = content, msg_timestamp = now,
            msg_metadata = metadata\<rparr>]\<rparr>"

definition set_current_query :: "ContextManager \<Rightarrow> string \<Rightarrow> ContextManager" where
  "set_current_query cm query = cm\<lparr>current_query := Some query\<rparr>"

definition to_retrieved :: "doc_dict \<Rightarrow> RetrievedDocument" where
  "to_retrieved doc =
     \<lparr>doc_id = (case get_id doc of None \<Rightarrow> '''' | Some v \<Rightarrow> v),
      doc_content = (case get_content doc of None \<Rightarrow> '''' | Some v \<Rightarrow> v),
      doc_score = (case get_score doc of None \<Rightarrow> 0 | Some v \<Rightarrow> v),
      doc_metadata = (case get_metadata doc of None \<Rightarrow> Some [] | Some v \<Rightarrow> Some v)\<rparr>"

fun add_retrieved_documents :: "ContextManager \<Rightarrow> doc_dict list \<Rightarrow> ContextManager" where
  "add_retrieved_documents cm [] = cm"
| "add_retrieved_documents cm (doc # rest) =
     add_retrieved_documents
       (cm\<lparr>retrieved_documents := retrieved_documents cm @ [to_retrieved doc]\<rparr>) rest"

definition trim_conversation_history :: "ContextManager \<Rightarrow> Message list" where
  "trim_conversation_history cm =
     (let max_history = 10
      in if int (length (conversation_history cm)) \<le> max_history
         then conversation_history cm
         else slice_from (conversation_history cm) (- max_history))"

definition get_context_window :: "ContextManager \<Rightarrow> context_window" where
  "get_context_window cm =
     (let trimmed_history = trim_conversation_history cm;
          relevant_docs = slice_to (sorted_reverse doc_score (retrieved_documents cm)) 3
      in \<lparr>window_history = trimmed_history, window_documents = relevant_docs,
          window_query = current_query cm\<rparr>)"

definition clear_context :: "ContextManager \<Rightarrow> ContextManager" where
  "clear_context cm =
     cm\<lparr>conversation_history := [], retrieved_documents := [], current_query := None\<rparr>"

text \<open>One call on the context manager, and a sequence of calls run in order.\<close>

datatype context_call =
    AddUserMessage string "metadata option" real
  | AddAssistantMessage string "metadata option" real
  | SetCurrentQuery string
  | AddRetrievedDocuments "doc_dict list"
  | ClearContext

fun context_step :: "ContextManager \<Rightarrow> context_call \<Rightarrow> ContextManager" where
  "context_step cm (AddUserMessage c m t) = add_user_message cm c m t"
| "context_step cm (AddAssistantMessage c m t) = add_assistant_message cm c m t"
| "context_step cm (SetCurrentQuery q) = set_current_query cm q"
| "context_step cm (AddRetrievedDocuments ds) = add_retrieved_documents cm ds"
| "context_step cm ClearContext = clear_context cm"

definition context_run :: "ContextManager \<Rightarrow> context_call list \<Rightarrow> ContextManager" where
  "context_run cm calls = foldl context_step cm calls"

section \<open>backend/metrics.py\<close>

record PerformanceMetrics =
  pm_timestamp :: real
  query_processing_time :: real
  document_retrieval_time :: real
  response_generation_time :: real
  total_response_time :: real
  documents_retrieved :: nat
  documents_used :: nat
  context_length :: nat
  query_length :: nat
  response_length :: nat
  similarity_scores :: "real list"
  pm_metadata :: "metadata option"

record MetricsTracker =
  metrics_history :: "PerformanceMetrics list"
  current_timers :: "string \<rightharpoonup> real"

text \<open>
  What the tracker writes to its logger: the record's format and arguments, and the level
  it is logged at.
\<close>

datatype log_level = DEBUG | INFO | WARNING | ERROR

datatype log_record =
    TimerStarted string
  | TimerNotFound string
  | TimerStopped string real

fun levelname :: "log_record \<Rightarrow> log_level" where
  "levelname (TimerStarted n) = DEBUG"
| "levelname (TimerNotFound n) = WARNING"
| "levelname (TimerStopped n t) = DEBUG"

definition MetricsTracker_init :: MetricsTracker where
  "MetricsTracker_init = \<lparr>metrics_history = [], current_timers = Map.empty\<rparr>"

text \<open>\<open>now\<close> is the reading of \<open>time.time()\<close> taken by the call.\<close>

definition start_timer :: "MetricsTracker \<Rightarrow> string \<Rightarrow> real \<Rightarrow> MetricsTracker \<times> log_record list" where
  "start_timer mt timer_name now =
     (mt\<lparr>current_timers := (current_timers mt)(timer_name \<mapsto> now)\<rparr>, [TimerStarted timer_name])"

definition stop_timer :: "MetricsTracker \<Rightarrow> string \<Rightarrow> real
    \<Rightarrow> py_error + (real \<times> MetricsTracker \<times> log_record list)" where
  "stop_timer mt timer_name now =
     (if current_timers mt timer_name = None
      then Inr (0, mt, [TimerNotFound timer_name])
      else
        bind_exc (py_lookup (current_timers mt) timer_name) (\<lambda>started.
        let elapsed_time = now - started
        in bind_exc (py_del (current_timers mt) timer_name) (\<lambda>timers.
           Inr (elapsed_time, mt\<lparr>current_timers := timers\<rparr>,
                [TimerStopped timer_name elapsed_time]))))"

definition record_metrics :: "MetricsTracker \<Rightarrow> PerformanceMetrics \<Rightarrow> MetricsTracker" where
  "record_metrics mt metrics = mt\<lparr>metrics_history := metrics_history mt @ [metrics]\<rparr>"

section \<open>api/app.py\<close>

text \<open>
  \<open>_calculate_confidence\<close>: the highest score, scaled to 0..100 by a float product, capped
  at 100 and rounded to two decimals by \<open>round\<close>.
\<close>

definition calculate_confidence :: "ranked_result list \<Rightarrow> py_error + real" where
  "calculate_confidence docs =
     (if docs = [] then Inr 0
      else bind_exc (py_max (map res_score docs)) (\<lambda>best_score.
           let confidence = min 100 (binary64 (best_score * 100))
           in Inr (binary64 (py_round confidence 2))))"

definition JAMMU_TIPS :: string where
  "JAMMU_TIPS =
     ''Jammu (in Jammu & Kashmir) is a great base for religious visits and '' @
     ''mountain access. Quick tips: 1) Visit Vaishno Devi (allow 1-2 days). 2) '' @
     ''Pack warm clothes if you go to higher altitudes. 3) Local transport: '' @
     ''taxis and hired cabs; confirm fares in advance. 4) Try local food like '' @
     ''rajma and kaladi. If you want, upload any local guides or itineraries '' @
     ''(PDF/DOCX) and I'll use them to give detailed day-by-day plans.''"

definition HOTEL_TIPS :: string where
  "HOTEL_TIPS =
     ''For finding hotels: pick a neighbourhood close to the attractions you '' @
     ''want, check recent reviews, and filter by your budget and required '' @
     ''amenities (Wi'' @
     [CHR 0xE2, CHR 0x80, CHR 0x91] @
     ''Fi, breakfast, free cancellation).''"

definition FLIGHT_TIPS :: string where
  "FLIGHT_TIPS =
     ''For flights: search flexible dates 2'' @
     [CHR 0xE2, CHR 0x80, CHR 0x93] @
     ''3 months ahead, consider mid'' @
     [CHR 0xE2, CHR 0x80, CHR 0x91] @
     ''week departures, and use price alerts. If you give me your departure '' @
     ''city and dates, I can suggest a strategy.''"

definition GENERIC_FALLBACK :: string where
  "GENERIC_FALLBACK =
     ''I don't have matching documents in my knowledge base right now. You can '' @
     ''upload travel documents (itineraries, guides, bookings) using the 'Upload '' @
     ''Travel Documents' button '' @
     [CHR 0xE2, CHR 0x80, CHR 0x94] @
     '' after that I'll provide specific, document-backed recommendations. '' @
     ''Meanwhile, tell me the destination and travel dates and I'll give '' @
     ''general planning tips.''"

definition fallback_response :: "string \<Rightarrow> string" where
  "fallback_response query =
     (let q = py_lower query
      in if py_in ''jammu'' q then JAMMU_TIPS
         else if py_in ''hotel'' q \<or> py_in ''accommodation'' q then HOTEL_TIPS
         else if py_in ''flight'' q \<or> py_in ''airline'' q then FLIGHT_TIPS
         else GENERIC_FALLBACK)"

definition NO_INFORMATION :: string where
  "NO_INFORMATION =
     ''I don't have specific information about that topic in my knowledge '' @
     ''base. Could you provide more details or ask about something else '' @
     ''related to travel?''"

text \<open>
  \<open>_generate_response\<close>. In each branch the conditional expression binds weaker than
  \<open>+\<close>: the prefixed, truncated text is returned when the content is longer than the
  bound, the bare content otherwise.
\<close>

definition generate_response :: "string \<Rightarrow> ranked_result list \<Rightarrow> py_error + string" where
  "generate_response query docs =
     (if docs = [] then Inr NO_INFORMATION
      else bind_exc (py_max_key res_score docs) (\<lambda>best_doc.
        let c = res_content best_doc; q = py_lower query
        in if py_in ''beach'' q \<or> py_in ''ocean'' q
           then Inr (if 200 < py_len c
                     then ''Based on my travel knowledge, beaches are wonderful destinations for '' @
                          ''relaxation. '' @ str_take 200 c @ ''...''
                     else c)
           else if py_in ''hotel'' q \<or> py_in ''accommodation'' q
           then Inr (if 200 < py_len c
                     then ''For accommodations, I recommend considering location and amenities. '' @
                          str_take 200 c @ ''...''
                     else c)
           else if py_in ''food'' q \<or> py_in ''restaurant'' q
           then Inr (if 200 < py_len c
                     then ''Food is an essential part of travel experience. '' @
                          str_take 200 c @ ''...''
                     else c)
           else Inr (if 300 < py_len c
                     then ''Based on my travel knowledge: '' @ str_take 300 c @ ''...''
                     else c)))"

text \<open>
  The JSON body of \<open>POST /api/chat\<close>. \<open>response_time\<close> holds the number of seconds that
  the source formats with two decimals.
\<close>

record response_document =
  rd_id :: string
  rd_content :: string
  rd_score :: real
  rd_metadata :: metadata

record chat_response =
  cr_query :: string
  cr_response :: string
  cr_confidence :: real
  cr_documents_retrieved :: nat
  cr_response_time :: real
  cr_retrieved_documents :: "response_document list"

datatype http_error = HTTPException nat

text \<open>The module-level components that a request reads and updates.\<close>

record app_state =
  context_manager :: ContextManager
  metrics_tracker :: MetricsTracker

definition as_doc_dict :: "ranked_result \<Rightarrow> doc_dict" where
  "as_doc_dict r =
     \<lparr>get_id = Some (res_id r), get_content = Some (res_content r),
      get_score = Some (res_score r), get_metadata = Some (res_metadata r)\<rparr>"

definition summary_document :: "ranked_result \<Rightarrow> response_document" where
  "summary_document doc =
     \<lparr>rd_id = res_id doc,
      rd_content = (if 200 < py_len (res_content doc)
                    then str_take 200 (res_content doc) @ ''...''
                    else res_content doc),
      rd_score = res_score doc,
      rd_metadata = res_metadata doc\<rparr>"

text \<open>
  The \<open>except\<close> branch of the retrieval (lines 111 to 138): \<open>clock\<close> gives the successive
  clock readings of the request, \<open>cm\<close> and \<open>mt\<close> the components as they are when the
  retriever has raised. Whatever is raised in here reaches the outer handler, which answers
  with status 500.
\<close>

definition chat_retrieval_failed :: "(nat \<Rightarrow> real) \<Rightarrow> string \<Rightarrow> ContextManager \<Rightarrow> MetricsTracker
    \<Rightarrow> (http_error + chat_response) \<times> app_state" where
  "chat_retrieval_failed clock user_query cm mt =
     (let response = fallback_response user_query
      in case stop_timer mt ''total_response'' (clock 5) of
           Inl e \<Rightarrow> (Inl (HTTPException 500), \<lparr>context_manager = cm, metrics_tracker = mt\<rparr>)
         | Inr (total_time, mt', lg) \<Rightarrow>
             (Inr \<lparr>cr_query = user_query, cr_response = response, cr_confidence = 80,
                   cr_documents_retrieved = 0, cr_response_time = total_time,
                   cr_retrieved_documents = []\<rparr>,
              \<lparr>context_manager = cm,
               metrics_tracker = record_metrics mt'
                 \<lparr>pm_timestamp = clock 6, query_processing_time = 0,
                  document_retrieval_time = 0, response_generation_time = 0,
                  total_response_time = total_time, documents_retrieved = 0,
                  documents_used = 0, context_length = py_len user_query,
                  query_length = py_len user_query, response_length = py_len response,
                  similarity_scores = [], pm_metadata = None\<rparr>\<rparr>))"

text \<open>The branch \<open>if not retrieved_docs\<close> (lines 144 to 169).\<close>

definition chat_no_documents :: "(nat \<Rightarrow> real) \<Rightarrow> string \<Rightarrow> real \<Rightarrow> ContextManager \<Rightarrow> MetricsTracker
    \<Rightarrow> (http_error + chat_response) \<times> app_state" where
  "chat_no_documents clock user_query retrieval_time cm mt =
     (let response = fallback_response user_query
      in case stop_timer mt ''total_response'' (clock 6) of
           Inl e \<Rightarrow> (Inl (HTTPException 500), \<lparr>context_manager = cm, metrics_tracker = mt\<rparr>)
         | Inr (total_time, mt', lg) \<Rightarrow>
             (Inr \<lparr>cr_query = user_query, cr_response = response, cr_confidence = 75,
                   cr_documents_retrieved = 0, cr_response_time = total_time,
                   cr_retrieved_documents = []\<rparr>,
              \<lparr>context_manager = cm,
               metrics_tracker = record_metrics mt'
                 \<lparr>pm_timestamp = clock 7, query_processing_time = 0,
                  document_retrieval_time = retrieval_time, response_generation_time = 0,
                  total_response_time = total_time, documents_retrieved = 0,
                  documents_used = 0, context_length = py_len user_query,
                  query_length = py_len user_query, response_length = py_len response,
                  similarity_scores = [], pm_metadata = None\<rparr>\<rparr>))"

text \<open>Lines 170 to 223: the answer built from the retrieved documents.\<close>

definition chat_answer :: "(nat \<Rightarrow> real) \<Rightarrow> string \<Rightarrow> real \<Rightarrow> real \<Rightarrow> ranked_result list
    \<Rightarrow> ContextManager \<Rightarrow> MetricsTracker \<Rightarrow> (http_error + chat_response) \<times> app_state" where
  "chat_answer clock user_query query_time retrieval_time retrieved_docs cm mt =
     (let mt1 = fst (start_timer mt ''response_generation'' (clock 6));
          cm1 = add_retrieved_documents cm (map as_doc_dict retrieved_docs)
      in case generate_response user_query retrieved_docs of
           Inl e \<Rightarrow> (Inl (HTTPException 500), \<lparr>context_manager = cm1, metrics_tracker = mt1\<rparr>)
         | Inr response \<Rightarrow>
       (case stop_timer mt1 ''response_generation'' (clock 7) of
           Inl e \<Rightarrow> (Inl (HTTPException 500), \<lparr>context_manager = cm1, metrics_tracker = mt1\<rparr>)
         | Inr (generation_time, mt2, lg) \<Rightarrow>
       (case stop_timer mt2 ''total_response'' (clock 8) of
           Inl e \<Rightarrow> (Inl (HTTPException 500), \<lparr>context_manager = cm1, metrics_tracker = mt2\<rparr>)
         | Inr (total_time, mt3, lg') \<Rightarrow>
       (let cm2 = add_assistant_message cm1 response None (clock 9);
            mt4 = record_metrics mt3
              \<lparr>pm_timestamp = clock 10, query_processing_time = query_time,
               document_retrieval_time = retrieval_time,
               response_generation_time = generation_time,
               total_response_time = total_time,
               documents_retrieved = length retrieved_docs,
               documents_used = min 3 (length retrieved_docs),
               context_length =
                 py_len user_query + sum_list (map (\<lambda>doc. py_len (res_content doc)) retrieved_docs),
               query_length = py_len user_query, response_length = py_len response,
               similarity_scores = map res_score retrieved_docs, pm_metadata = None\<rparr>
        in case calculate_confidence retrieved_docs of
             Inl e \<Rightarrow> (Inl (HTTPException 500), \<lparr>context_manager = cm2, metrics_tracker = mt4\<rparr>)
           | Inr confidence \<Rightarrow>
               (Inr \<lparr>cr_query = user_query, cr_response = response,
                     cr_confidence = confidence,
                     cr_documents_retrieved = length retrieved_docs,
                     cr_response_time = total_time,
                     cr_retrieved_documents = map summary_document (slice_to retrieved_docs 3)\<rparr>,
                \<lparr>context_manager = cm2, metrics_tracker = mt4\<rparr>)))))"

text \<open>
  \<open>chat\<close>, the handler of \<open>POST /api/chat\<close>. \<open>coll\<close> is the external collection, \<open>query\<close>
  the request body. A missing or empty message raises \<open>HTTPException(400)\<close> inside the
  \<open>try\<close>, which the handler's own \<open>except Exception\<close> turns into status 500.
\<close>

definition chat :: "collection \<Rightarrow> (nat \<Rightarrow> real) \<Rightarrow> (string \<rightharpoonup> string) \<Rightarrow> app_state
    \<Rightarrow> (http_error + chat_response) \<times> app_state" where
  "chat coll clock query st =
     (let user_query = (case query ''message'' of None \<Rightarrow> '''' | Some m \<Rightarrow> m)
      in if user_query = '''' then (Inl (HTTPException 500), st)
         else
           let mt1 = fst (start_timer (metrics_tracker st) ''total_response'' (clock 0));
               mt2 = fst (start_timer mt1 ''query_processing'' (clock 1));
               cm1 = set_current_query (context_manager st) user_query;
               cm2 = add_user_message cm1 user_query None (clock 2)
           in case stop_timer mt2 ''query_processing'' (clock 3) of
                Inl e \<Rightarrow> (Inl (HTTPException 500), \<lparr>context_manager = cm2, metrics_tracker = mt2\<rparr>)
              | Inr (query_time, mt3, lg) \<Rightarrow>
                  let mt4 = fst (start_timer mt3 ''document_retrieval'' (clock 4))
                  in case retrieve coll user_query TOP_K_RESULTS None of
                       Inl e \<Rightarrow> chat_retrieval_failed clock user_query cm2 mt4
                     | Inr retrieved_docs \<Rightarrow>
                        (case stop_timer mt4 ''document_retrieval'' (clock 5) of
                           Inl e \<Rightarrow>
                             (Inl (HTTPException 500),
                              \<lparr>context_manager = cm2, metrics_tracker = mt4\<rparr>)
                         | Inr (retrieval_time, mt5, lg') \<Rightarrow>
                             if retrieved_docs = []
                             then chat_no_documents clock user_query retrieval_time cm2 mt5
                             else chat_answer clock user_query query_time
                                    retrieval_time retrieved_docs cm2 mt5))"

section \<open>What the retriever computes\<close>

text \<open>
  The guarded reads of \<open>_combine_results\<close> never fail, so the function has a closed form:
  \<open>make_result\<close> is the dictionary built for the pair \<open>(i, doc_id)\<close> of the enumeration,
  \<open>candidates\<close> the list \<open>combined\<close> before sorting.
\<close>

definition row_or_empty :: "'a list list option \<Rightarrow> 'a list" where
  "row_or_empty col = (case col of None \<Rightarrow> [] | Some [] \<Rightarrow> [] | Some (r # _) \<Rightarrow> r)"

definition make_result :: "string list \<Rightarrow> metadata list \<Rightarrow> real list \<Rightarrow> nat \<times> string \<Rightarrow> ranked_result" where
  "make_result docs metas dists p =
     \<lparr>res_id = snd p,
      res_content = (if fst p < length docs then docs ! fst p else ''''),
      res_metadata = (if fst p < length metas then metas ! fst p else []),
      res_score = (if fst p < length dists then 1 - dists ! fst p else 1),
      res_source = ''vector''\<rparr>"

definition candidates :: "QueryResult \<Rightarrow> int \<Rightarrow> ranked_result list" where
  "candidates vr top_k =
     (case ids vr of
        [] \<Rightarrow> []
      | row # _ \<Rightarrow>
          map (make_result (row_or_empty (documents vr)) (row_or_empty (metadatas vr))
                 (row_or_empty (distances vr)))
            (enumerate 0 (slice_to row top_k)))"

section \<open>What a sequence of context calls has added\<close>

text \<open>
  The turns appended and the documents added by a sequence of calls since the last
  \<open>clear_context\<close> (or since the start), in the order of the calls.
\<close>

fun turn_step :: "Message list \<Rightarrow> context_call \<Rightarrow> Message list" where
  "turn_step acc (AddUserMessage c m t) =
     acc @ [\<lparr>msg_role = ''user'', msg_content = c, msg_timestamp = t, msg_metadata = m\<rparr>]"
| "turn_step acc (AddAssistantMessage c m t) =
     acc @ [\<lparr>msg_role = ''assistant'', msg_content = c, msg_timestamp = t, msg_metadata = m\<rparr>]"
| "turn_step acc (SetCurrentQuery q) = acc"
| "turn_step acc (AddRetrievedDocuments ds) = acc"
| "turn_step acc ClearContext = []"

definition appended_turns :: "context_call list \<Rightarrow> Message list" where
  "appended_turns calls = foldl turn_step [] calls"

fun document_step :: "RetrievedDocument list \<Rightarrow> context_call \<Rightarrow> RetrievedDocument list" where
  "document_step acc (AddRetrievedDocuments ds) = acc @ map to_retrieved ds"
| "document_step acc ClearContext = []"
| "document_step acc (AddUserMessage c m t) = acc"
| "document_step acc (AddAssistantMessage c m t) = acc"
| "document_step acc (SetCurrentQuery q) = acc"

definition added_documents :: "context_call list \<Rightarrow> RetrievedDocument list" where
  "added_documents calls = foldl document_step [] calls"

section \<open>Concrete replies\<close>

text \<open>A collection that answers every query with the same reply, and one that raises.\<close>

definition constant_collection :: "QueryResult \<Rightarrow> collection" where
  "constant_collection vr = (\<lambda>query n flt. Inr vr)"

definition failing_collection :: collection where
  "failing_collection = (\<lambda>query n flt. Inl (ExternalError ''collection unavailable''))"

text \<open>
  A collection that validates \<open>n_results\<close> as chromadb does, raising when it is not
  positive, and answers every other query with the same reply.
\<close>

definition validating_collection :: "QueryResult \<Rightarrow> collection" where
  "validating_collection vr =
     (\<lambda>query n flt. if n \<le> 0 then Inl (ExternalError ''n_results'') else Inr vr)"

definition empty_reply :: QueryResult where
  "empty_reply = \<lparr>ids = [[]], documents = Some [[]], metadatas = Some [[]], distances = Some [[]]\<rparr>"

text \<open>Three ids, one document, no metadata, two distances of which the first is larger.\<close>

definition ragged_reply :: QueryResult where
  "ragged_reply =
     \<lparr>ids = [[''a'', ''b'', ''c'']], documents = Some [[''first'']],
      metadatas = None, distances = Some [[1 / 2, 1 / 4]]\<rparr>"

definition bare_reply :: QueryResult where
  "bare_reply =
     \<lparr>ids = [[''a'', ''b'', ''c'']], documents = None, metadatas = None, distances = None\<rparr>"

text \<open>Three hits of which the first and the last are equally far.\<close>

definition tied_reply :: QueryResult where
  "tied_reply =
     \<lparr>ids = [[''a'', ''b'', ''c'']], documents = None, metadatas = None,
      distances = Some [[4 / 10, 1 / 10, 4 / 10]]\<rparr>"

text \<open>
  A result at distance 511/512, one at distance 1/10, and one whose score is the float
  written \<open>0.00505\<close>.
\<close>

definition faint_hit :: ranked_result where
  "faint_hit =
     \<lparr>res_id = ''a'', res_content = ''first'', res_metadata = [], res_score = 1 / 512,
      res_source = ''vector''\<rparr>"

definition half_percent_hit :: ranked_result where
  "half_percent_hit =
     \<lparr>res_id = ''c'', res_content = ''third'', res_metadata = [],
      res_score = 5822253598264577 / 1152921504606846976, res_source = ''vector''\<rparr>"

definition close_hit :: ranked_result where
  "close_hit =
     \<lparr>res_id = ''b'', res_content = ''second'', res_metadata = [], res_score = 9 / 10,
      res_source = ''vector''\<rparr>"

text \<open>Fifteen user turns, and the results of two queries.\<close>

definition fifteen_turns :: "context_call list" where
  "fifteen_turns = map (\<lambda>i. AddUserMessage ''hello'' None (real i)) [0..<15]"

definition strong_document :: doc_dict where
  "strong_document =
     \<lparr>get_id = Some ''old'', get_content = Some ''first'', get_score = Some (9 / 10),
      get_metadata = None\<rparr>"

definition weak_document :: doc_dict where
  "weak_document =
     \<lparr>get_id = Some ''new'', get_content = Some ''second'', get_score = Some (1 / 10),
      get_metadata = None\<rparr>"

definition two_queries :: "context_call list" where
  "two_queries =
     [SetCurrentQuery ''one'', AddRetrievedDocuments [strong_document],
      SetCurrentQuery ''two'', AddRetrievedDocuments [weak_document]]"

text \<open>The components right after start-up, and a request body.\<close>

definition fresh_state :: app_state where
  "fresh_state =
     \<lparr>context_manager = ContextManager_init 4096, metrics_tracker = MetricsTracker_init\<rparr>"

definition hello_request :: "string \<rightharpoonup> string" where
  "hello_request = [''message'' \<mapsto> ''hello'']"

lemma bind_exc_Inr [simp]: "bind_exc (Inr v) f = f v"
  by (simp add: bind_exc_def)

lemma bind_exc_Inl [simp]: "bind_exc (Inl e) f = Inl e"
  by (simp add: bind_exc_def)

lemma py_get_in_range [simp]: "i < length xs \<Longrightarrow> py_get xs i = Inr (xs ! i)"
  by (simp add: py_get_def)

lemma py_get_empty [simp]: "py_get [] i = Inl IndexError"
  by (simp add: py_get_def)

lemma py_get_Cons_0 [simp]: "py_get (x # xs) 0 = Inr x"
  by (simp add: py_get_def)

lemma first_row_total: "first_row col = Inr (row_or_empty col)"
  by (cases col) (auto simp: first_row_def row_or_empty_def split: list.splits)

lemma combine_loop_closed:
  "combine_loop i xs docs metas dists combined =
     Inr (combined @ map (make_result docs metas dists) (enumerate i xs))"
proof (induction xs arbitrary: i combined)
  case Nil
  show ?case by simp
next
  case (Cons doc_id rest)
  show ?case
    by (simp add: Cons.IH make_result_def)
qed

lemma build_combined_total: "build_combined vr top_k = Inr (candidates vr top_k)"
proof (cases "ids vr")
  case Nil
  then show ?thesis by (simp add: build_combined_def candidates_def)
next
  case (Cons row rest)
  show ?thesis
  proof (cases "row = []")
    case True
    with Cons show ?thesis
      by (simp add: build_combined_def candidates_def slice_to_def)
  next
    case False
    with Cons show ?thesis
      by (simp add: build_combined_def candidates_def first_row_total combine_loop_closed)
  qed
qed

lemma combine_results_total:
  "combine_results vr top_k =
     Inr (slice_to (sorted_reverse res_score (candidates vr top_k)) top_k)"
  by (simp add: combine_results_def build_combined_total)

lemma search_eq:
  "search coll query n flt =
     coll query n (case flt of None \<Rightarrow> None | Some f \<Rightarrow> if f \<noteq> [] then Some f else None)"
proof (cases "coll query n (case flt of None \<Rightarrow> None | Some f \<Rightarrow> if f \<noteq> [] then Some f else None)")
  case (Inl e)
  then show ?thesis by (simp add: search_def)
next
  case (Inr results)
  then show ?thesis by (cases "ids results") (simp_all add: search_def)
qed

lemma retrieve_reply:
  assumes "search coll query top_k flt = Inr vr" and "ids vr = row # rest"
  shows "retrieve coll query top_k flt =
           Inr (slice_to (sorted_reverse res_score (candidates vr top_k)) top_k)"
  using assms by (simp add: retrieve_def vector_search_def combine_results_total)

lemma retrieve_raises:
  assumes "search coll query top_k flt = Inl e"
  shows "retrieve coll query top_k flt = Inl e"
  using assms by (simp add: retrieve_def vector_search_def)

lemma retrieve_InrD:
  assumes "retrieve coll query top_k flt = Inr rs"
  shows "\<exists>vr. search coll query top_k flt = Inr vr \<and> combine_results vr top_k = Inr rs"
  using assms
  by (auto simp: retrieve_def vector_search_def bind_exc_def split: sum.splits)

lemma search_Inr_positive:
  assumes "\<forall>q n f. n \<le> 0 \<longrightarrow> isl (coll q n f)"
    and "search coll query top_k flt = Inr vr"
  shows "0 < top_k"
proof (rule ccontr)
  assume "\<not> 0 < top_k"
  then have "isl (search coll query top_k flt)"
    using assms(1) by (simp add: search_eq)
  with assms(2) show False by simp
qed

text \<open>
  A reply with no row at all (\<open>ids = []\<close>) is outside the replies of a collection queried
  with one text. \<open>_combine_results\<close> alone returns the empty list on it, but the debug line
  of \<open>_vector_search\<close> reads \<open>results['ids'][0]\<close> first, so \<open>retrieve\<close> raises.
\<close>

lemma retrieve_no_row:
  assumes "search coll query top_k flt = Inr vr" and "ids vr = []"
  shows "retrieve coll query top_k flt = Inl IndexError"
    and "combine_results vr top_k = Inr []"
  using assms
  by (simp_all add: retrieve_def vector_search_def combine_results_total
      candidates_def slice_to_def sorted_reverse_def)

lemma map_eq_three:
  assumes "length xs = 3"
    and "f (xs ! 0) = a" and "f (xs ! Suc 0) = b" and "f (xs ! Suc (Suc 0)) = c"
  shows "map f xs = [a, b, c]"
proof -
  from assms(1) obtain x y z where "xs = [x, y, z]"
    by (auto simp: numeral_3_eq_3 length_Suc_conv)
  with assms(2-4) show ?thesis by simp
qed

subsection \<open>Slices and the descending stable sort\<close>

lemma slice_to_prefix: "prefix (slice_to xs k) xs"
  by (simp add: slice_to_def take_is_prefix)

lemma slice_to_nonneg: "0 \<le> k \<Longrightarrow> slice_to xs k = take (nat k) xs"
  by (simp add: slice_to_def)

lemma length_slice_to_nonneg: "0 \<le> k \<Longrightarrow> int (length (slice_to xs k)) \<le> k"
  by (simp add: slice_to_def)

lemma mset_sorted_reverse [simp]: "mset (sorted_reverse f xs) = mset xs"
  by (simp add: sorted_reverse_def)

lemma set_sorted_reverse [simp]: "set (sorted_reverse f xs) = set xs"
  by (simp add: sorted_reverse_def)

lemma length_sorted_reverse [simp]: "length (sorted_reverse f xs) = length xs"
  by (simp add: sorted_reverse_def)

lemma sorted_reverse_descending:
  "sorted_wrt (\<lambda>a b. f b \<le> f a) (sorted_reverse f xs)"
proof -
  have "sorted (map f (sort_key f (rev xs)))"
    by (rule sorted_sort_key)
  then have "sorted_wrt (\<lambda>a b. f a \<le> f b) (sort_key f (rev xs))"
    by (simp add: sorted_wrt_map)
  then show ?thesis
    by (simp add: sorted_reverse_def sorted_wrt_rev)
qed

lemma sorted_reverse_stable:
  "filter (\<lambda>x. f x = k) (sorted_reverse f xs) = filter (\<lambda>x. f x = k) xs"
proof -
  have "filter (\<lambda>x. f x = k) (sorted_reverse f xs)
          = rev (filter (\<lambda>x. f x = k) (sort_key f (rev xs)))"
    by (simp add: sorted_reverse_def rev_filter)
  also have "\<dots> = rev (filter (\<lambda>x. f x = k) (rev xs))"
    by (simp add: sort_key_stable)
  also have "\<dots> = filter (\<lambda>x. f x = k) xs"
    by (simp add: rev_filter)
  finally show ?thesis .
qed

lemma sorted_wrt_prefix:
  assumes "prefix ys xs" and "sorted_wrt P xs"
  shows "sorted_wrt P ys"
  using assms by (auto simp: prefix_def sorted_wrt_append)

subsection \<open>The candidate list\<close>

lemma length_candidates:
  "ids vr = row # rest \<Longrightarrow> length (candidates vr top_k) = length (slice_to row top_k)"
  by (simp add: candidates_def)

lemma length_candidates_le:
  "0 \<le> top_k \<Longrightarrow> int (length (candidates vr top_k)) \<le> top_k"
  by (cases "ids vr") (simp_all add: candidates_def length_slice_to_nonneg)

lemma candidates_nth:
  assumes "ids vr = row # rest" and "i < length (slice_to row top_k)"
  shows "candidates vr top_k ! i =
           make_result (row_or_empty (documents vr)) (row_or_empty (metadatas vr))
             (row_or_empty (distances vr)) (i, row ! i)"
proof -
  have "slice_to row top_k ! i = row ! i"
    using assms(2) by (auto simp: slice_to_def split: if_splits)
  with assms show ?thesis
    by (simp add: candidates_def nth_enumerate_eq)
qed

lemma slice_sorted_candidates:
  assumes "0 \<le> top_k"
  shows "slice_to (sorted_reverse f (candidates vr top_k)) top_k
           = sorted_reverse f (candidates vr top_k)"
  using assms length_candidates_le [OF assms, of vr]
  by (simp add: slice_to_def)

lemma row_or_empty_subset:
  "col = Some rows \<Longrightarrow> set (row_or_empty col) \<subseteq> set (concat rows)"
  by (cases rows) (auto simp: row_or_empty_def)

lemma row_or_empty_None [simp]: "row_or_empty None = []"
  by (simp add: row_or_empty_def)

lemma candidates_score_bounded:
  assumes "\<forall>rows. distances vr = Some rows \<longrightarrow> (\<forall>d\<in>set (concat rows). 0 \<le> d \<and> d \<le> 1)"
    and "r \<in> set (candidates vr top_k)"
  shows "0 \<le> res_score r \<and> res_score r \<le> 1"
proof -
  have ds: "0 \<le> d \<and> d \<le> 1" if "d \<in> set (row_or_empty (distances vr))" for d
  proof (cases "distances vr")
    case None
    with that show ?thesis by simp
  next
    case (Some rows)
    with that row_or_empty_subset [OF Some] assms(1) show ?thesis by blast
  qed
  from assms(2) obtain p where
    r: "r = make_result (row_or_empty (documents vr)) (row_or_empty (metadatas vr))
              (row_or_empty (distances vr)) p"
    by (auto simp: candidates_def split: list.splits)
  show ?thesis
  proof (cases "fst p < length (row_or_empty (distances vr))")
    case True
    then have "row_or_empty (distances vr) ! fst p \<in> set (row_or_empty (distances vr))"
      by simp
    from ds [OF this] True r show ?thesis
      by (simp add: make_result_def)
  next
    case False
    with r show ?thesis by (simp add: make_result_def)
  qed
qed

section \<open>Maximum and rounding\<close>

lemma py_max_Max:
  assumes "xs \<noteq> []"
  shows "py_max xs = Inr (Max (set xs))"
proof -
  from assms obtain x rest where xs: "xs = x # rest"
    by (cases xs) auto
  have "(\<lambda>y m :: 'a. if m < y then y else m) = max"
    by (auto simp: fun_eq_iff max_def)
  moreover have "fold max rest x = Max (set (x # rest))"
    by (rule Max.set_eq_fold [symmetric])
  ultimately have "fold (\<lambda>y m. if m < y then y else m) rest x = Max (set (x # rest))"
    by (simp only:)
  with xs show ?thesis
    by (simp add: py_max_def)
qed

subsection \<open>Rounding to binary64 is monotonic\<close>

lemma pow2_powr: "pow2 e = 2 powr (of_int e)"
  by (simp add: pow2_def powr_real_of_int divide_inverse)

lemma pow2_pos [simp]: "0 < pow2 e"
  by (simp add: pow2_powr)

lemma pow2_add: "pow2 (a + b) = pow2 a * pow2 b"
  by (simp add: pow2_powr powr_add)

lemma pow2_mono: "a \<le> b \<Longrightarrow> pow2 a \<le> pow2 b"
  by (simp add: pow2_powr)

lemma pow2_less_iff: "pow2 a < pow2 b \<longleftrightarrow> a < b"
  by (simp add: pow2_powr)

lemma pow2_nat: "pow2 (int n) = 2 ^ n"
  by (simp add: pow2_def)

lemma real_pow2_le:
  fixes a n :: nat
  assumes "2 ^ a \<le> n"
  shows "(2 :: real) ^ a \<le> real n"
proof -
  have "real (2 ^ a) \<le> real n"
    using assms by (rule of_nat_mono)
  then show ?thesis by simp
qed

lemma real_less_pow2:
  fixes a n :: nat
  assumes "n < 2 ^ a"
  shows "real n + 1 \<le> (2 :: real) ^ a"
proof -
  from assms have "n + 1 \<le> 2 ^ a" by simp
  then have "real (n + 1) \<le> real (2 ^ a)"
    by (rule of_nat_mono)
  then show ?thesis by simp
qed

lemma float_exponent_bounds:
  assumes "0 < x"
  shows "pow2 (float_exponent x) \<le> x \<and> x < pow2 (float_exponent x + 1)"
proof (cases "1 \<le> x")
  case True
  define n where "n = nat \<lfloor>x\<rfloor>"
  have n: "0 < n" "real n \<le> x" "x < real n + 1"
    using True by (simp_all add: n_def)
  from floorlog_bounds [of n 2] n(1)
  have b: "2 ^ (floorlog 2 n - 1) \<le> n" "n < 2 ^ floorlog 2 n"
    by simp_all
  have fpos: "0 < floorlog 2 n"
    using n(1) by (simp add: floorlog_def)
  have e: "float_exponent x = int (floorlog 2 n - 1)"
    using True fpos by (simp add: float_exponent_def n_def)
  have e1: "float_exponent x + 1 = int (floorlog 2 n)"
    using e fpos by simp
  have p: "pow2 (float_exponent x) = 2 ^ (floorlog 2 n - 1)"
    unfolding e by (rule pow2_nat)
  have p1: "pow2 (float_exponent x + 1) = 2 ^ floorlog 2 n"
    unfolding e1 by (rule pow2_nat)
  from real_pow2_le [OF b(1)] real_less_pow2 [OF b(2)] n(2,3) show ?thesis
    unfolding p p1 by linarith
next
  case False
  define y where "y = 1 / x"
  have y: "1 < y" using False assms by (simp add: y_def)
  define m where "m = nat (\<lceil>y\<rceil> - 1)"
  have "2 \<le> \<lceil>y\<rceil>" using y by linarith
  then have m: "0 < m" "real m < y" "y \<le> real m + 1"
    by (simp_all add: m_def) linarith+
  define k where "k = floorlog 2 m"
  from floorlog_bounds [of m 2] m(1)
  have b: "2 ^ (k - 1) \<le> m" "m < 2 ^ k"
    by (simp_all add: k_def)
  have kpos: "0 < k"
    using m(1) by (simp add: k_def floorlog_def)
  have e: "float_exponent x = - int k"
    using False by (simp add: float_exponent_def k_def m_def y_def)
  have yk: "y \<le> 2 ^ k"
    using real_less_pow2 [OF b(2)] m(3) by linarith
  have ky: "2 ^ (k - 1) < y"
    using real_pow2_le [OF b(1)] m(2) by linarith
  have x: "x = 1 / y" using assms by (simp add: y_def)
  have p: "pow2 (float_exponent x) = 1 / 2 ^ k"
    using kpos by (simp add: e pow2_def)
  have p1: "pow2 (float_exponent x + 1) = 1 / 2 ^ (k - 1)"
  proof (cases "k = 1")
    case True
    then show ?thesis by (simp add: e pow2_def)
  next
    case False
    with kpos have "\<not> 0 \<le> - int k + 1" and "nat (- (- int k + 1)) = k - 1" by simp_all
    then show ?thesis by (simp add: e pow2_def)
  qed
  have "1 / 2 ^ k \<le> 1 / y"
    using yk y by (intro divide_left_mono) simp_all
  moreover have "1 / y < 1 / 2 ^ (k - 1)"
  proof -
    have "0 < y * 2 ^ (k - 1)"
      using y by (intro mult_pos_pos) simp_all
    with ky show ?thesis
      by (intro divide_strict_left_mono) simp_all
  qed
  ultimately have "1 / 2 ^ k \<le> x" and "x < 1 / 2 ^ (k - 1)"
    unfolding x by simp_all
  then show ?thesis
    unfolding p p1 by simp
qed

lemma float_exponent_mono:
  assumes "0 < x" and "x \<le> y"
  shows "float_exponent x \<le> float_exponent y"
proof -
  from float_exponent_bounds [of x] float_exponent_bounds [of y] assms
  have "pow2 (float_exponent x) < pow2 (float_exponent y + 1)"
    by linarith
  then show ?thesis by (simp add: pow2_less_iff)
qed

lemma round_half_even_mono:
  assumes "x \<le> y"
  shows "round_half_even x \<le> round_half_even y"
proof (cases "\<lfloor>x\<rfloor> = \<lfloor>y\<rfloor>")
  case True
  with assms show ?thesis
    by (auto simp: round_half_even_def Let_def)
next
  case False
  with assms have "\<lfloor>x\<rfloor> + 1 \<le> \<lfloor>y\<rfloor>"
    using floor_mono [OF assms] by linarith
  moreover have "round_half_even x \<le> \<lfloor>x\<rfloor> + 1"
    by (simp add: round_half_even_def Let_def)
  moreover have "\<lfloor>y\<rfloor> \<le> round_half_even y"
    by (simp add: round_half_even_def Let_def)
  ultimately show ?thesis by linarith
qed

lemma round_half_even_of_int [simp]: "round_half_even (of_int n) = n"
  by (simp add: round_half_even_def)

lemma round_half_even_le_int:
  assumes "x \<le> of_int n"
  shows "real_of_int (round_half_even x) \<le> of_int n"
proof -
  have "round_half_even x \<le> round_half_even (of_int n)"
    using assms by (rule round_half_even_mono)
  then show ?thesis by simp
qed

lemma int_le_round_half_even:
  assumes "of_int n \<le> x"
  shows "of_int n \<le> real_of_int (round_half_even x)"
proof -
  have "round_half_even (of_int n) \<le> round_half_even x"
    using assms by (rule round_half_even_mono)
  then show ?thesis by simp
qed

lemma binary64_pos_mono:
  assumes "0 < x" and "x \<le> y"
  shows "binary64_pos x \<le> binary64_pos y"
proof -
  define ex where "ex = max (float_exponent x) (- 1022)"
  define ey where "ey = max (float_exponent y) (- 1022)"
  have ypos: "0 < y" using assms by linarith
  have le: "ex \<le> ey"
    using float_exponent_mono [OF assms] by (simp add: ex_def ey_def)
  have bx: "binary64_pos x = of_int (round_half_even (x / pow2 (ex - 52))) * pow2 (ex - 52)"
    by (simp add: binary64_pos_def ex_def Let_def)
  have fy: "binary64_pos y = of_int (round_half_even (y / pow2 (ey - 52))) * pow2 (ey - 52)"
    by (simp add: binary64_pos_def ey_def Let_def)
  show ?thesis
  proof (cases "ex = ey")
    case True
    have "x / pow2 (ey - 52) \<le> y / pow2 (ey - 52)"
      by (rule divide_right_mono [OF assms(2)]) (rule less_imp_le [OF pow2_pos])
    then have "round_half_even (x / pow2 (ey - 52)) \<le> round_half_even (y / pow2 (ey - 52))"
      by (rule round_half_even_mono)
    then show ?thesis
      unfolding bx fy True by (simp add: mult_right_mono)
  next
    case False
    with le have lt: "ex + 1 \<le> ey" by simp
    then have eyf: "ey = float_exponent y"
      by (simp add: ex_def ey_def)
    have "x < pow2 (float_exponent x + 1)"
      using float_exponent_bounds [OF assms(1)] by simp
    also have "\<dots> \<le> pow2 (ex + 1)"
      by (rule pow2_mono) (simp add: ex_def)
    finally have xlt: "x < pow2 (ex + 1)" .
    have s53: "pow2 (ex + 1) = 2 ^ 53 * pow2 (ex - 52)"
    proof -
      have "pow2 (ex + 1) = pow2 (53 + (ex - 52))"
        by (rule arg_cong [where f = pow2]) simp
      also have "\<dots> = pow2 53 * pow2 (ex - 52)" by (rule pow2_add)
      finally show ?thesis by (simp add: pow2_def)
    qed
    have "x / pow2 (ex - 52) \<le> 2 ^ 53"
      using xlt unfolding s53 by (simp add: divide_le_eq)
    then have "real_of_int (round_half_even (x / pow2 (ex - 52))) \<le> 2 ^ 53"
      using round_half_even_le_int [of "x / pow2 (ex - 52)" "2 ^ 53"] by simp
    then have "binary64_pos x \<le> 2 ^ 53 * pow2 (ex - 52)"
      unfolding bx by (simp add: mult_right_mono)
    then have x_le: "binary64_pos x \<le> pow2 (ex + 1)"
      unfolding s53 .
    have s52: "pow2 ey = 2 ^ 52 * pow2 (ey - 52)"
    proof -
      have "pow2 ey = pow2 (52 + (ey - 52))"
        by (rule arg_cong [where f = pow2]) simp
      also have "\<dots> = pow2 52 * pow2 (ey - 52)" by (rule pow2_add)
      finally show ?thesis by (simp add: pow2_def)
    qed
    have "pow2 ey \<le> y"
      using float_exponent_bounds [OF ypos] eyf by simp
    then have "2 ^ 52 \<le> y / pow2 (ey - 52)"
      unfolding s52 by (simp add: le_divide_eq)
    then have "2 ^ 52 \<le> real_of_int (round_half_even (y / pow2 (ey - 52)))"
      using int_le_round_half_even [of "2 ^ 52" "y / pow2 (ey - 52)"] by simp
    then have "2 ^ 52 * pow2 (ey - 52) \<le> binary64_pos y"
      unfolding fy by (simp add: mult_right_mono)
    then have y_ge: "pow2 ey \<le> binary64_pos y"
      unfolding s52 .
    have "pow2 (ex + 1) \<le> pow2 ey"
      using lt by (rule pow2_mono)
    with x_le y_ge show ?thesis by linarith
  qed
qed

lemma binary64_pos_nonneg:
  assumes "0 < x"
  shows "0 \<le> binary64_pos x"
proof -
  have "0 \<le> x / pow2 (max (float_exponent x) (- 1022) - 52)"
    by (rule divide_nonneg_pos [OF less_imp_le [OF assms] pow2_pos])
  then have "round_half_even 0 \<le> round_half_even (x / pow2 (max (float_exponent x) (- 1022) - 52))"
    by (rule round_half_even_mono)
  then have "0 \<le> round_half_even (x / pow2 (max (float_exponent x) (- 1022) - 52))"
    by (simp add: round_half_even_def)
  then have "0 \<le> real_of_int (round_half_even (x / pow2 (max (float_exponent x) (- 1022) - 52)))"
    by simp
  then have "0 \<le> real_of_int (round_half_even (x / pow2 (max (float_exponent x) (- 1022) - 52)))
                * pow2 (max (float_exponent x) (- 1022) - 52)"
    by (rule mult_nonneg_nonneg) (rule less_imp_le [OF pow2_pos])
  then show ?thesis
    by (simp add: binary64_pos_def Let_def)
qed

lemma binary64_mono:
  assumes "x \<le> y"
  shows "binary64 x \<le> binary64 y"
proof -
  consider "0 < x" | "x = 0" | "x < 0" "y < 0" | "x < 0" "0 \<le> y"
    by linarith
  then show ?thesis
  proof cases
    case 1
    with assms binary64_pos_mono [OF 1 assms] show ?thesis
      by (simp add: binary64_def)
  next
    case 2
    with assms binary64_pos_nonneg [of y] show ?thesis
      by (cases "y = 0") (simp_all add: binary64_def)
  next
    case 3
    then have "0 < - y" and "- y \<le> - x" using assms by simp_all
    from binary64_pos_mono [OF this] 3 show ?thesis
      by (simp add: binary64_def)
  next
    case 4
    have "binary64 x \<le> 0"
      using 4(1) binary64_pos_nonneg [of "- x"] by (simp add: binary64_def)
    moreover have "0 \<le> binary64 y"
      using 4(2) binary64_pos_nonneg [of y] by (cases "y = 0") (simp_all add: binary64_def)
    ultimately show ?thesis by linarith
  qed
qed

lemma py_round_mono:
  assumes "x \<le> y"
  shows "py_round x n \<le> py_round y n"
proof -
  have "x * 10 ^ n \<le> y * 10 ^ n"
    using assms by (simp add: mult_right_mono)
  then have "round_half_even (x * 10 ^ n) \<le> round_half_even (y * 10 ^ n)"
    by (rule round_half_even_mono)
  then show ?thesis
    by (simp add: py_round_def divide_right_mono)
qed

lemma calculate_confidence_closed:
  assumes "docs \<noteq> []"
  shows "calculate_confidence docs =
           Inr (binary64 (py_round (min 100 (binary64 (Max (res_score ` set docs) * 100))) 2))"
  using assms
  by (simp add: calculate_confidence_def py_max_Max Let_def)

lemma confidence_value_mono:
  assumes "a \<le> b"
  shows "binary64 (py_round (min 100 (binary64 (a * 100))) 2)
           \<le> binary64 (py_round (min 100 (binary64 (b * 100))) 2)"
proof -
  have "a * 100 \<le> b * 100"
    using assms by simp
  then have "binary64 (a * 100) \<le> binary64 (b * 100)"
    by (rule binary64_mono)
  then have "min 100 (binary64 (a * 100)) \<le> min 100 (binary64 (b * 100))"
    by (simp add: min_le_iff_disj)
  then have "py_round (min 100 (binary64 (a * 100))) 2 \<le> py_round (min 100 (binary64 (b * 100))) 2"
    by (rule py_round_mono)
  then show ?thesis
    by (rule binary64_mono)
qed

section \<open>The context manager\<close>

lemma add_retrieved_documents_fields:
  "retrieved_documents (add_retrieved_documents cm ds) = retrieved_documents cm @ map to_retrieved ds"
  "conversation_history (add_retrieved_documents cm ds) = conversation_history cm"
  "current_query (add_retrieved_documents cm ds) = current_query cm"
  by (induction cm ds rule: add_retrieved_documents.induct) simp_all

lemma context_step_history:
  "conversation_history (context_step cm call) = turn_step (conversation_history cm) call"
  by (cases call)
    (simp_all add: add_user_message_def add_assistant_message_def set_current_query_def
      clear_context_def add_retrieved_documents_fields)

lemma context_step_documents:
  "retrieved_documents (context_step cm call) = document_step (retrieved_documents cm) call"
  by (cases call)
    (simp_all add: add_user_message_def add_assistant_message_def set_current_query_def
      clear_context_def add_retrieved_documents_fields)

lemma context_run_history:
  "conversation_history (context_run cm calls) = foldl turn_step (conversation_history cm) calls"
  unfolding context_run_def
  by (induction calls arbitrary: cm) (simp_all add: context_step_history)

lemma context_run_documents:
  "retrieved_documents (context_run cm calls) = foldl document_step (retrieved_documents cm) calls"
  unfolding context_run_def
  by (induction calls arbitrary: cm) (simp_all add: context_step_documents)

lemma context_run_init:
  "conversation_history (context_run (ContextManager_init n) calls) = appended_turns calls"
  "retrieved_documents (context_run (ContextManager_init n) calls) = added_documents calls"
  by (simp_all add: context_run_history context_run_documents appended_turns_def
      added_documents_def ContextManager_init_def)

lemma window_history_eq:
  "window_history (get_context_window cm) =
     (if length (conversation_history cm) \<le> 10 then conversation_history cm
      else drop (length (conversation_history cm) - 10) (conversation_history cm))"
proof -
  have "nat (int (length (conversation_history cm)) - 10) = length (conversation_history cm) - 10"
    by simp
  then show ?thesis
    by (simp add: get_context_window_def trim_conversation_history_def slice_from_def Let_def)
qed

lemma window_documents_eq:
  "window_documents (get_context_window cm) =
     take 3 (sorted_reverse doc_score (retrieved_documents cm))"
  by (simp add: get_context_window_def slice_to_def Let_def)

lemma take_sorted_reverse_top:
  assumes "d \<in># mset xs - mset (take n (sorted_reverse f xs))"
    and "e \<in> set (take n (sorted_reverse f xs))"
  shows "f d \<le> f e"
proof -
  let ?S = "sorted_reverse f xs"
  have "mset xs = mset (take n ?S) + mset (drop n ?S)"
    by (metis append_take_drop_id mset_append mset_sorted_reverse)
  with assms(1) have d: "d \<in> set (drop n ?S)"
    by simp
  have "sorted_wrt (\<lambda>a b. f b \<le> f a) (take n ?S @ drop n ?S)"
    using sorted_reverse_descending [of f xs] by simp
  with d assms(2) show ?thesis
    unfolding sorted_wrt_append by blast
qed

lemma take_sorted_reverse_sub: "mset (take n (sorted_reverse f xs)) \<subseteq># mset xs"
proof -
  have "mset (take n (sorted_reverse f xs)) \<subseteq># mset (sorted_reverse f xs)"
    by (metis append_take_drop_id mset_append mset_subset_eq_add_left)
  then show ?thesis by simp
qed

section \<open>The chat handler\<close>

lemma chat_when_retrieve_raises:
  assumes "query ''message'' = Some user_query" and "user_query \<noteq> ''''"
    and "retrieve coll user_query TOP_K_RESULTS None = Inl e"
  shows "\<exists>st'. chat coll clock query st =
           (Inr \<lparr>cr_query = user_query, cr_response = fallback_response user_query,
                 cr_confidence = 80, cr_documents_retrieved = 0,
                 cr_response_time = clock 5 - clock 0, cr_retrieved_documents = []\<rparr>, st')"
  using assms
  by (simp add: chat_def chat_retrieval_failed_def Let_def start_timer_def stop_timer_def
      py_lookup_def py_del_def)

lemma chat_when_retrieve_empty:
  assumes "query ''message'' = Some user_query" and "user_query \<noteq> ''''"
    and "retrieve coll user_query TOP_K_RESULTS None = Inr []"
  shows "\<exists>st'. chat coll clock query st =
           (Inr \<lparr>cr_query = user_query, cr_response = fallback_response user_query,
                 cr_confidence = 75, cr_documents_retrieved = 0,
                 cr_response_time = clock 6 - clock 0, cr_retrieved_documents = []\<rparr>, st')"
  using assms
  by (simp add: chat_def chat_no_documents_def Let_def start_timer_def stop_timer_def
      py_lookup_def py_del_def)

section \<open>Claims about the retriever\<close>

text \<open>
  C4. If the vector index returns zero candidates, that is, the id list of its reply to the
  query is empty, \<open>retrieve\<close> returns the empty sequence and does not raise. This holds for
  every \<open>top_k\<close> and every filter.
\<close>

theorem retrieve_zero_candidates:
  assumes "search coll query top_k flt = Inr vr" and "ids vr = [] # rest"
  shows "retrieve coll query top_k flt = Inr []"
  using assms
  by (simp add: retrieve_reply candidates_def slice_to_def sorted_reverse_def)

theorem retrieve_zero_candidates_witness:
  "search (constant_collection empty_reply) ''hello'' 5 None = Inr empty_reply
   \<and> ids empty_reply = [] # []
   \<and> retrieve (constant_collection empty_reply) ''hello'' 5 None = Inr []"
proof -
  have h1: "search (constant_collection empty_reply) ''hello'' 5 None = Inr empty_reply"
    by (simp add: search_eq constant_collection_def)
  have h2: "ids empty_reply = [] # []"
    by (simp add: empty_reply_def)
  from retrieve_zero_candidates [OF h1 h2] h1 h2 show ?thesis by simp
qed

text \<open>
  C1. For a reply whose id list \<open>row\<close> is not empty, the result built for the candidate at
  position \<open>i\<close> of \<open>ids[:top_k]\<close> carries the id \<open>row[i]\<close> and the score \<open>1 - distances[i]\<close>
  when the distance row has an entry at \<open>i\<close>, and the score 1 when the distance column is
  absent, empty or too short. In particular the ids \<open>a, b\<close> with distances 0.1 and 0.4 are
  ranked \<open>a, b\<close> with scores 0.9 and 0.6, whatever the documents and metadata.
\<close>

theorem candidate_scores:
  assumes "ids vr = row # rest" and "row \<noteq> []"
  shows "(\<exists>combined. build_combined vr top_k = Inr combined
            \<and> length combined = length (slice_to row top_k)
            \<and> (\<forall>i<length combined.
                  res_id (combined ! i) = row ! i
                  \<and> res_score (combined ! i) =
                      (case distances vr of
                         None \<Rightarrow> 1
                       | Some [] \<Rightarrow> 1
                       | Some (ds # _) \<Rightarrow> if i < length ds then 1 - ds ! i else 1)))
         \<and> (\<exists>rs. retrieve
                   (constant_collection
                      \<lparr>ids = [[''a'', ''b'']], documents = docs, metadatas = metas,
                       distances = Some [[1 / 10, 4 / 10]]\<rparr>) query 5 flt = Inr rs
                \<and> map res_id rs = [''a'', ''b'']
                \<and> map res_score rs = [9 / 10, 6 / 10])"
proof (intro conjI)
  have "\<forall>i<length (candidates vr top_k).
          res_id (candidates vr top_k ! i) = row ! i
          \<and> res_score (candidates vr top_k ! i) =
              (case distances vr of
                 None \<Rightarrow> 1
               | Some [] \<Rightarrow> 1
               | Some (ds # _) \<Rightarrow> if i < length ds then 1 - ds ! i else 1)"
  proof (intro allI impI)
    fix i
    assume "i < length (candidates vr top_k)"
    then have i: "i < length (slice_to row top_k)"
      by (simp add: length_candidates [OF assms(1)])
    show "res_id (candidates vr top_k ! i) = row ! i
          \<and> res_score (candidates vr top_k ! i) =
              (case distances vr of
                 None \<Rightarrow> 1
               | Some [] \<Rightarrow> 1
               | Some (ds # _) \<Rightarrow> if i < length ds then 1 - ds ! i else 1)"
      by (simp add: candidates_nth [OF assms(1) i] make_result_def row_or_empty_def
          split: option.splits list.splits)
  qed
  then show "\<exists>combined. build_combined vr top_k = Inr combined
            \<and> length combined = length (slice_to row top_k)
            \<and> (\<forall>i<length combined.
                  res_id (combined ! i) = row ! i
                  \<and> res_score (combined ! i) =
                      (case distances vr of
                         None \<Rightarrow> 1
                       | Some [] \<Rightarrow> 1
                       | Some (ds # _) \<Rightarrow> if i < length ds then 1 - ds ! i else 1))"
    by (simp add: build_combined_total length_candidates [OF assms(1)])
next
  let ?vr = "\<lparr>ids = [[''a'', ''b'']], documents = docs, metadatas = metas,
              distances = Some [[1 / 10, 4 / 10 :: real]]\<rparr>"
  have s: "search (constant_collection ?vr) query 5 flt = Inr ?vr"
    by (simp add: search_eq constant_collection_def)
  have "retrieve (constant_collection ?vr) query 5 flt =
          Inr (slice_to (sorted_reverse res_score (candidates ?vr 5)) 5)"
    by (rule retrieve_reply [OF s]) simp
  moreover have "map res_id (slice_to (sorted_reverse res_score (candidates ?vr 5)) 5) = [''a'', ''b'']"
    by (simp add: candidates_def slice_to_def sorted_reverse_def make_result_def
        row_or_empty_def enumerate_eq_zip upt_rec)
  moreover have "map res_score (slice_to (sorted_reverse res_score (candidates ?vr 5)) 5) = [9 / 10, 6 / 10]"
    by (simp add: candidates_def slice_to_def sorted_reverse_def make_result_def
        row_or_empty_def enumerate_eq_zip upt_rec)
  ultimately show "\<exists>rs. retrieve (constant_collection ?vr) query 5 flt = Inr rs
                \<and> map res_id rs = [''a'', ''b'']
                \<and> map res_score rs = [9 / 10, 6 / 10]"
    by simp
qed

theorem candidate_scores_witness:
  "ids ragged_reply = [''a'', ''b'', ''c''] # []
   \<and> [''a'', ''b'', ''c''] \<noteq> ([] :: string list)
   \<and> (\<exists>combined. build_combined ragged_reply 5 = Inr combined
          \<and> map res_id combined = [''a'', ''b'', ''c'']
          \<and> map res_score combined = [1 / 2, 3 / 4, 1])"
proof -
  have h1: "ids ragged_reply = [''a'', ''b'', ''c''] # []"
    by (simp add: ragged_reply_def)
  have h2: "[''a'', ''b'', ''c''] \<noteq> ([] :: string list)"
    by simp
  from candidate_scores [OF h1 h2, where top_k = 5 and docs = None and metas = None
      and query = "''q''" and flt = None]
  obtain combined where b: "build_combined ragged_reply 5 = Inr combined"
    and l: "length combined = length (slice_to [''a'', ''b'', ''c''] 5)"
    and s: "\<forall>i<length combined.
              res_id (combined ! i) = [''a'', ''b'', ''c''] ! i
              \<and> res_score (combined ! i) =
                  (case distances ragged_reply of
                     None \<Rightarrow> 1
                   | Some [] \<Rightarrow> 1
                   | Some (ds # _) \<Rightarrow> if i < length ds then 1 - ds ! i else 1)"
    by blast
  have l3: "length combined = 3"
    using l by (simp add: slice_to_def)
  have "res_id (combined ! 0) = ''a'' \<and> res_score (combined ! 0) = 1 / 2"
    "res_id (combined ! Suc 0) = ''b'' \<and> res_score (combined ! Suc 0) = 3 / 4"
    "res_id (combined ! Suc (Suc 0)) = ''c'' \<and> res_score (combined ! Suc (Suc 0)) = 1"
    using s l3 by (simp_all add: ragged_reply_def)
  then have "map res_id combined = [''a'', ''b'', ''c'']"
    and "map res_score combined = [1 / 2, 3 / 4, 1]"
    using l3 by (simp_all add: map_eq_three)
  with b h1 h2 show ?thesis by simp
qed

text \<open>
  C10. \<open>_combine_results\<close> is total: whatever the reply and \<open>top_k\<close>, it returns a list and
  raises nothing, also when the document, metadata or distance column is absent (\<open>None\<close>),
  empty, or shorter than the id list. One result is built for every id of \<open>ids[:top_k]\<close>,
  in order, with the empty string as content when the document row has no entry at its
  position and the empty dictionary as metadata when the metadata row has none. The list
  returned is the sorted list of these results cut at \<open>top_k\<close>: for \<open>top_k \<ge> 0\<close> it holds
  every result built.
\<close>

theorem combine_results_misaligned:
  "\<exists>combined rs.
      build_combined vr top_k = Inr combined
      \<and> combine_results vr top_k = Inr rs
      \<and> rs = slice_to (sorted_reverse res_score combined) top_k
      \<and> (0 \<le> top_k \<longrightarrow> mset rs = mset combined \<and> length rs = length combined)
      \<and> (ids vr = [] \<longrightarrow> combined = [])
      \<and> (\<forall>row rest. ids vr = row # rest \<longrightarrow>
            length combined = length (slice_to row top_k)
            \<and> (0 \<le> top_k \<longrightarrow> length combined = min (nat top_k) (length row))
            \<and> (\<forall>i<length combined. res_id (combined ! i) = row ! i))
      \<and> (\<forall>i<length combined.
            (case documents vr of
               None \<Rightarrow> res_content (combined ! i) = ''''
             | Some [] \<Rightarrow> res_content (combined ! i) = ''''
             | Some (docs # _) \<Rightarrow>
                 res_content (combined ! i) = (if i < length docs then docs ! i else ''''))
            \<and> (case metadatas vr of
                 None \<Rightarrow> res_metadata (combined ! i) = []
               | Some [] \<Rightarrow> res_metadata (combined ! i) = []
               | Some (metas # _) \<Rightarrow>
                   res_metadata (combined ! i) = (if i < length metas then metas ! i else [])))"
proof -
  let ?C = "candidates vr top_k"
  have whole: "0 \<le> top_k \<longrightarrow>
                 mset (slice_to (sorted_reverse res_score ?C) top_k) = mset ?C
                 \<and> length (slice_to (sorted_reverse res_score ?C) top_k) = length ?C"
    by (simp add: slice_sorted_candidates)
  have none: "ids vr = [] \<longrightarrow> ?C = []"
    by (simp add: candidates_def)
  have rows: "\<forall>row rest. ids vr = row # rest \<longrightarrow>
            length ?C = length (slice_to row top_k)
            \<and> (0 \<le> top_k \<longrightarrow> length ?C = min (nat top_k) (length row))
            \<and> (\<forall>i<length ?C. res_id (?C ! i) = row ! i)"
  proof (intro allI impI)
    fix row rest
    assume r: "ids vr = row # rest"
    have l: "length ?C = length (slice_to row top_k)"
      by (rule length_candidates [OF r])
    have "\<forall>i<length ?C. res_id (?C ! i) = row ! i"
    proof (intro allI impI)
      fix i
      assume "i < length ?C"
      then have "i < length (slice_to row top_k)"
        by (simp add: l)
      then show "res_id (?C ! i) = row ! i"
        by (simp add: candidates_nth [OF r] make_result_def)
    qed
    with l show "length ?C = length (slice_to row top_k)
            \<and> (0 \<le> top_k \<longrightarrow> length ?C = min (nat top_k) (length row))
            \<and> (\<forall>i<length ?C. res_id (?C ! i) = row ! i)"
      by (simp add: slice_to_def min.commute)
  qed
  have fields: "\<forall>i<length ?C.
            (case documents vr of
               None \<Rightarrow> res_content (?C ! i) = ''''
             | Some [] \<Rightarrow> res_content (?C ! i) = ''''
             | Some (docs # _) \<Rightarrow>
                 res_content (?C ! i) = (if i < length docs then docs ! i else ''''))
            \<and> (case metadatas vr of
                 None \<Rightarrow> res_metadata (?C ! i) = []
               | Some [] \<Rightarrow> res_metadata (?C ! i) = []
               | Some (metas # _) \<Rightarrow>
                   res_metadata (?C ! i) = (if i < length metas then metas ! i else []))"
  proof (cases "ids vr")
    case Nil
    then show ?thesis by (simp add: candidates_def)
  next
    case (Cons row rest)
    show ?thesis
    proof (intro allI impI)
      fix i
      assume "i < length ?C"
      then have i: "i < length (slice_to row top_k)"
        by (simp add: length_candidates [OF Cons])
      show "(case documents vr of
               None \<Rightarrow> res_content (?C ! i) = ''''
             | Some [] \<Rightarrow> res_content (?C ! i) = ''''
             | Some (docs # _) \<Rightarrow>
                 res_content (?C ! i) = (if i < length docs then docs ! i else ''''))
            \<and> (case metadatas vr of
                 None \<Rightarrow> res_metadata (?C ! i) = []
               | Some [] \<Rightarrow> res_metadata (?C ! i) = []
               | Some (metas # _) \<Rightarrow>
                   res_metadata (?C ! i) = (if i < length metas then metas ! i else []))"
        by (simp add: candidates_nth [OF Cons i] make_result_def row_or_empty_def
            split: option.splits list.splits)
    qed
  qed
  have b: "build_combined vr top_k = Inr ?C"
    by (rule build_combined_total)
  have c: "combine_results vr top_k = Inr (slice_to (sorted_reverse res_score ?C) top_k)"
    by (rule combine_results_total)
  have "build_combined vr top_k = Inr ?C
      \<and> combine_results vr top_k = Inr (slice_to (sorted_reverse res_score ?C) top_k)
      \<and> slice_to (sorted_reverse res_score ?C) top_k
          = slice_to (sorted_reverse res_score ?C) top_k
      \<and> (0 \<le> top_k \<longrightarrow>
            mset (slice_to (sorted_reverse res_score ?C) top_k) = mset ?C
            \<and> length (slice_to (sorted_reverse res_score ?C) top_k) = length ?C)
      \<and> (ids vr = [] \<longrightarrow> ?C = [])
      \<and> (\<forall>row rest. ids vr = row # rest \<longrightarrow>
            length ?C = length (slice_to row top_k)
            \<and> (0 \<le> top_k \<longrightarrow> length ?C = min (nat top_k) (length row))
            \<and> (\<forall>i<length ?C. res_id (?C ! i) = row ! i))
      \<and> (\<forall>i<length ?C.
            (case documents vr of
               None \<Rightarrow> res_content (?C ! i) = ''''
             | Some [] \<Rightarrow> res_content (?C ! i) = ''''
             | Some (docs # _) \<Rightarrow>
                 res_content (?C ! i) = (if i < length docs then docs ! i else ''''))
            \<and> (case metadatas vr of
                 None \<Rightarrow> res_metadata (?C ! i) = []
               | Some [] \<Rightarrow> res_metadata (?C ! i) = []
               | Some (metas # _) \<Rightarrow>
                   res_metadata (?C ! i) = (if i < length metas then metas ! i else [])))"
    by (intro conjI b c whole none rows fields refl)
  then show ?thesis
    by (rule_tac x = ?C in exI, rule_tac x = "slice_to (sorted_reverse res_score ?C) top_k" in exI)
qed

theorem combine_results_misaligned_witness:
  "ids ragged_reply = [''a'', ''b'', ''c''] # []
   \<and> (\<exists>combined rs.
      build_combined ragged_reply 5 = Inr combined
      \<and> combine_results ragged_reply 5 = Inr rs
      \<and> length combined = 3
      \<and> length rs = 3
      \<and> mset rs = mset combined
      \<and> map res_id combined = [''a'', ''b'', ''c'']
      \<and> map res_content combined = [''first'', '''', '''']
      \<and> map res_metadata combined = [[], [], []])
   \<and> map res_id (slice_to (sorted_reverse res_score (candidates ragged_reply 5)) 5)
       = [''c'', ''b'', ''a'']"
proof -
  have r: "ids ragged_reply = [''a'', ''b'', ''c''] # []"
    by (simp add: ragged_reply_def)
  have k: "(0 :: int) \<le> 5"
    by simp
  from combine_results_misaligned [of ragged_reply 5]
  obtain combined rs where b: "build_combined ragged_reply 5 = Inr combined"
    and c: "combine_results ragged_reply 5 = Inr rs"
    and w: "(0 :: int) \<le> 5 \<longrightarrow> mset rs = mset combined \<and> length rs = length combined"
    and rows: "\<forall>row rest. ids ragged_reply = row # rest \<longrightarrow>
            length combined = length (slice_to row 5)
            \<and> ((0 :: int) \<le> 5 \<longrightarrow> length combined = min (nat 5) (length row))
            \<and> (\<forall>i<length combined. res_id (combined ! i) = row ! i)"
    and f: "\<forall>i<length combined.
            (case documents ragged_reply of
               None \<Rightarrow> res_content (combined ! i) = ''''
             | Some [] \<Rightarrow> res_content (combined ! i) = ''''
             | Some (docs # _) \<Rightarrow>
                 res_content (combined ! i) = (if i < length docs then docs ! i else ''''))
            \<and> (case metadatas ragged_reply of
                 None \<Rightarrow> res_metadata (combined ! i) = []
               | Some [] \<Rightarrow> res_metadata (combined ! i) = []
               | Some (metas # _) \<Rightarrow>
                   res_metadata (combined ! i) = (if i < length metas then metas ! i else []))"
    by blast
  from rows r k have l3: "length combined = 3"
    and ids: "\<forall>i<length combined. res_id (combined ! i) = [''a'', ''b'', ''c''] ! i"
    by simp_all
  from w k l3 have m: "mset rs = mset combined" and lr: "length rs = 3"
    by simp_all
  have n: "res_content (combined ! 0) = ''first'' \<and> res_metadata (combined ! 0) = []"
    "res_content (combined ! Suc 0) = '''' \<and> res_metadata (combined ! Suc 0) = []"
    "res_content (combined ! Suc (Suc 0)) = '''' \<and> res_metadata (combined ! Suc (Suc 0)) = []"
    using f l3 by (simp_all add: ragged_reply_def)
  have i3: "res_id (combined ! 0) = ''a''" "res_id (combined ! Suc 0) = ''b''"
    "res_id (combined ! Suc (Suc 0)) = ''c''"
    using ids l3 by simp_all
  from n i3 have "map res_content combined = [''first'', '''', '''']"
    and "map res_metadata combined = [[], [], []]"
    and "map res_id combined = [''a'', ''b'', ''c'']"
    using l3 by (simp_all add: map_eq_three)
  with b c l3 lr m
  have e: "\<exists>combined rs.
      build_combined ragged_reply 5 = Inr combined
      \<and> combine_results ragged_reply 5 = Inr rs
      \<and> length combined = 3
      \<and> length rs = 3
      \<and> mset rs = mset combined
      \<and> map res_id combined = [''a'', ''b'', ''c'']
      \<and> map res_content combined = [''first'', '''', '''']
      \<and> map res_metadata combined = [[], [], []]"
    by (intro exI [of _ combined] exI [of _ rs]) simp
  have o: "map res_id (slice_to (sorted_reverse res_score (candidates ragged_reply 5)) 5)
             = [''c'', ''b'', ''a'']"
    by (simp add: candidates_def ragged_reply_def slice_to_def sorted_reverse_def
        make_result_def row_or_empty_def enumerate_eq_zip upt_rec)
  show ?thesis
    by (intro conjI r e o)
qed

text \<open>
  C3. The collection is chromadb's, whose \<open>query\<close> validates \<open>n_results\<close> and raises when
  it is not positive; \<open>retrieve\<close> passes \<open>top_k\<close> to it unchanged and re-raises. On such a
  collection \<open>retrieve\<close> returns at most \<open>top_k\<close> results for every \<open>top_k\<close>, and on a
  reply with id row \<open>row\<close> exactly the first \<open>min(top_k, len(row))\<close> of the ranked candidate
  list. \<open>_combine_results\<close> alone keeps the bound for every \<open>top_k \<ge> 0\<close>.
\<close>

theorem retrieve_at_most_top_k:
  assumes "\<forall>q n f. n \<le> 0 \<longrightarrow> isl (coll q n f)"
  shows "(\<forall>rs. retrieve coll query top_k flt = Inr rs \<longrightarrow> int (length rs) \<le> top_k)
         \<and> (\<forall>vr row rest. search coll query top_k flt = Inr vr \<and> ids vr = row # rest \<longrightarrow>
              (\<exists>combined rs. build_combined vr top_k = Inr combined
                 \<and> retrieve coll query top_k flt = Inr rs
                 \<and> rs = take (nat top_k) (sorted_reverse res_score combined)
                 \<and> length rs = min (nat top_k) (length row)))
         \<and> (0 \<le> top_k \<longrightarrow>
              (\<exists>rs. combine_results vr' top_k = Inr rs \<and> int (length rs) \<le> top_k))"
proof (intro conjI allI impI)
  fix rs
  assume "retrieve coll query top_k flt = Inr rs"
  then obtain vr where s: "search coll query top_k flt = Inr vr"
    and c: "combine_results vr top_k = Inr rs"
    using retrieve_InrD by blast
  from search_Inr_positive [OF assms s] have "0 \<le> top_k"
    by simp
  with c show "int (length rs) \<le> top_k"
    by (auto simp: combine_results_total length_slice_to_nonneg)
next
  fix vr row rest
  assume a: "search coll query top_k flt = Inr vr \<and> ids vr = row # rest"
  then have s: "search coll query top_k flt = Inr vr" and r: "ids vr = row # rest"
    by simp_all
  from search_Inr_positive [OF assms s] have k: "0 \<le> top_k"
    by simp
  let ?C = "candidates vr top_k"
  have 1: "build_combined vr top_k = Inr ?C"
    by (rule build_combined_total)
  have 2: "retrieve coll query top_k flt = Inr (take (nat top_k) (sorted_reverse res_score ?C))"
    using retrieve_reply [OF s r] k by (simp add: slice_to_def)
  have "length ?C = min (nat top_k) (length row)"
    using k by (simp add: length_candidates [OF r] slice_to_def min.commute)
  then have 3: "length (take (nat top_k) (sorted_reverse res_score ?C)) = min (nat top_k) (length row)"
    by simp
  from 1 2 3 show "\<exists>combined rs. build_combined vr top_k = Inr combined
                 \<and> retrieve coll query top_k flt = Inr rs
                 \<and> rs = take (nat top_k) (sorted_reverse res_score combined)
                 \<and> length rs = min (nat top_k) (length row)"
    by blast
next
  assume "0 \<le> top_k"
  then show "\<exists>rs. combine_results vr' top_k = Inr rs \<and> int (length rs) \<le> top_k"
    by (simp add: combine_results_total length_slice_to_nonneg)
qed

theorem retrieve_at_most_top_k_witness:
  "validating_collection bare_reply ''hello'' (- 1) None = Inl (ExternalError ''n_results'')
   \<and> retrieve (validating_collection bare_reply) ''hello'' (- 1) None
       = Inl (ExternalError ''n_results'')
   \<and> search (validating_collection bare_reply) ''hello'' 2 None = Inr bare_reply
   \<and> ids bare_reply = [''a'', ''b'', ''c''] # []
   \<and> (\<exists>rs. retrieve (validating_collection bare_reply) ''hello'' 2 None = Inr rs
          \<and> length rs = 2 \<and> int (length rs) \<le> 2)"
proof -
  have h: "\<forall>q n f. n \<le> 0 \<longrightarrow> isl (validating_collection bare_reply q n f)"
    by (simp add: validating_collection_def)
  have v: "validating_collection bare_reply ''hello'' (- 1) None = Inl (ExternalError ''n_results'')"
    by (simp add: validating_collection_def)
  have e: "retrieve (validating_collection bare_reply) ''hello'' (- 1) None
             = Inl (ExternalError ''n_results'')"
    by (rule retrieve_raises) (simp add: search_eq validating_collection_def)
  have s: "search (validating_collection bare_reply) ''hello'' 2 None = Inr bare_reply"
    by (simp add: search_eq validating_collection_def)
  have i: "ids bare_reply = [''a'', ''b'', ''c''] # []"
    by (simp add: bare_reply_def)
  note t = retrieve_at_most_top_k [OF h, of "''hello''" 2 None bare_reply]
  from t s i obtain combined rs where
    "retrieve (validating_collection bare_reply) ''hello'' 2 None = Inr rs"
    and "length rs = min (nat 2) (length [''a'', ''b'', ''c''])"
    by blast
  moreover from t this(1) have "int (length rs) \<le> 2"
    by blast
  ultimately have "\<exists>rs. retrieve (validating_collection bare_reply) ''hello'' 2 None = Inr rs
          \<and> length rs = 2 \<and> int (length rs) \<le> 2"
    by simp
  with v e s i show ?thesis
    by (intro conjI)
qed

text \<open>
  C2. When every distance of the reply lies in \<open>[0, 1]\<close>, the sequence returned by
  \<open>retrieve\<close> is non-increasing in score and every score lies in \<open>[0, 1]\<close>. The sort is
  stable: for each score value, the returned results with that score are an initial part of
  the candidates with that score in their original index order, and all of them when
  \<open>top_k \<ge> 0\<close>, where the returned sequence is a rearrangement of all candidates built.
\<close>

theorem retrieve_ranked:
  assumes "search coll query top_k flt = Inr vr" and "ids vr = row # rest"
    and "\<forall>rows. distances vr = Some rows \<longrightarrow> (\<forall>d\<in>set (concat rows). 0 \<le> d \<and> d \<le> 1)"
  shows "\<exists>combined rs.
           build_combined vr top_k = Inr combined
           \<and> retrieve coll query top_k flt = Inr rs
           \<and> sorted_wrt (\<lambda>a b. res_score b \<le> res_score a) rs
           \<and> (\<forall>r\<in>set rs. 0 \<le> res_score r \<and> res_score r \<le> 1)
           \<and> (\<forall>s. prefix (filter (\<lambda>r. res_score r = s) rs)
                      (filter (\<lambda>r. res_score r = s) combined))
           \<and> (0 \<le> top_k \<longrightarrow>
                 mset rs = mset combined
                 \<and> (\<forall>s. filter (\<lambda>r. res_score r = s) rs = filter (\<lambda>r. res_score r = s) combined))"
proof -
  let ?C = "candidates vr top_k"
  let ?S = "sorted_reverse res_score ?C"
  let ?rs = "slice_to ?S top_k"
  have pre: "prefix ?rs ?S"
    by (rule slice_to_prefix)
  have 1: "build_combined vr top_k = Inr ?C"
    by (rule build_combined_total)
  have 2: "retrieve coll query top_k flt = Inr ?rs"
    by (rule retrieve_reply [OF assms(1,2)])
  have 3: "sorted_wrt (\<lambda>a b. res_score b \<le> res_score a) ?rs"
    by (rule sorted_wrt_prefix [OF pre sorted_reverse_descending])
  have "set ?rs \<subseteq> set ?C"
    using set_mono_prefix [OF pre] by simp
  then have 4: "\<forall>r\<in>set ?rs. 0 \<le> res_score r \<and> res_score r \<le> 1"
    using candidates_score_bounded [OF assms(3)] by blast
  have 5: "\<forall>s. prefix (filter (\<lambda>r. res_score r = s) ?rs) (filter (\<lambda>r. res_score r = s) ?C)"
  proof
    fix s
    have "prefix (filter (\<lambda>r. res_score r = s) ?rs) (filter (\<lambda>r. res_score r = s) ?S)"
      by (rule filter_mono_prefix [OF pre])
    then show "prefix (filter (\<lambda>r. res_score r = s) ?rs) (filter (\<lambda>r. res_score r = s) ?C)"
      by (simp add: sorted_reverse_stable)
  qed
  have 6: "0 \<le> top_k \<longrightarrow>
             mset ?rs = mset ?C
             \<and> (\<forall>s. filter (\<lambda>r. res_score r = s) ?rs = filter (\<lambda>r. res_score r = s) ?C)"
    by (simp add: slice_sorted_candidates sorted_reverse_stable)
  from 1 2 3 4 5 6 show ?thesis by blast
qed

theorem retrieve_ranked_witness:
  "search (constant_collection tied_reply) ''hello'' 5 None = Inr tied_reply
   \<and> ids tied_reply = [''a'', ''b'', ''c''] # []
   \<and> distances tied_reply = Some [[4 / 10, 1 / 10, 4 / 10]]
   \<and> list_all (\<lambda>d. 0 \<le> d \<and> d \<le> 1) [4 / 10, 1 / 10, 4 / 10 :: real]
   \<and> (\<exists>combined rs.
           build_combined tied_reply 5 = Inr combined
           \<and> retrieve (constant_collection tied_reply) ''hello'' 5 None = Inr rs
           \<and> sorted_wrt (\<lambda>a b. res_score b \<le> res_score a) rs
           \<and> (\<forall>r\<in>set rs. 0 \<le> res_score r \<and> res_score r \<le> 1)
           \<and> (\<forall>s. prefix (filter (\<lambda>r. res_score r = s) rs)
                      (filter (\<lambda>r. res_score r = s) combined))
           \<and> ((0 :: int) \<le> 5 \<longrightarrow>
                 mset rs = mset combined
                 \<and> (\<forall>s. filter (\<lambda>r. res_score r = s) rs = filter (\<lambda>r. res_score r = s) combined)))
   \<and> map res_id (slice_to (sorted_reverse res_score (candidates tied_reply 5)) 5)
       = [''b'', ''a'', ''c'']"
proof -
  have h1: "search (constant_collection tied_reply) ''hello'' 5 None = Inr tied_reply"
    by (simp add: search_eq constant_collection_def)
  have h2: "ids tied_reply = [''a'', ''b'', ''c''] # []"
    by (simp add: tied_reply_def)
  have h3: "\<forall>rows. distances tied_reply = Some rows \<longrightarrow> (\<forall>d\<in>set (concat rows). 0 \<le> d \<and> d \<le> 1)"
    by (simp add: tied_reply_def)
  have e: "map res_id (slice_to (sorted_reverse res_score (candidates tied_reply 5)) 5)
             = [''b'', ''a'', ''c'']"
    by (simp add: candidates_def tied_reply_def slice_to_def sorted_reverse_def
        make_result_def row_or_empty_def enumerate_eq_zip upt_rec)
  have d: "distances tied_reply = Some [[4 / 10, 1 / 10, 4 / 10]]"
    by (simp add: tied_reply_def)
  have b: "list_all (\<lambda>d. 0 \<le> d \<and> d \<le> 1) [4 / 10, 1 / 10, 4 / 10 :: real]"
    by simp
  show ?thesis
    by (intro conjI h1 h2 d b e retrieve_ranked [OF h1 h2 h3])
qed

section \<open>Claims about the confidence\<close>

text \<open>
  C5 as stated (the confidence of a non-empty list is \<open>min(100, 100 \<times> max score)\<close>) fails:
  the source rounds that number to two decimals. A single result with score 1/512 has the
  product 0.1953125, exact in binary64, and the confidence is the float 0.2.
\<close>

theorem confidence_is_rounded:
  "calculate_confidence [faint_hit] = Inr (3602879701896397 / 18014398509481984)
   \<and> calculate_confidence [faint_hit] \<noteq> Inr (min 100 (100 * Max (res_score ` set [faint_hit])))"
proof -
  have b1: "binary64 (25 / 128) = 25 / 128"
    by code_simp
  have r: "py_round (25 / 128) 2 = 1 / 5"
    by (simp add: py_round_def round_half_even_def Let_def)
  have b2: "binary64 (1 / 5) = 3602879701896397 / 18014398509481984"
    by code_simp
  have "calculate_confidence [faint_hit] = Inr (binary64 (py_round (min 100 (binary64 (25 / 128))) 2))"
    by (simp add: calculate_confidence_def py_max_def faint_hit_def Let_def)
  then have c: "calculate_confidence [faint_hit] = Inr (3602879701896397 / 18014398509481984)"
    by (simp add: b1 r b2)
  have "min 100 (100 * Max (res_score ` set [faint_hit])) = (25 / 128 :: real)"
    by (simp add: faint_hit_def)
  with c show ?thesis by simp
qed

text \<open>
  C5, amended. The confidence of the empty list is 0. For a non-empty list it is
  \<open>min(100, 100 \<times> max score)\<close>, the product taken in binary64, rounded to two decimals by
  \<open>round\<close>; it is monotonic non-decreasing in the maximum score.
\<close>

theorem confidence_of_results:
  "calculate_confidence [] = Inr 0
   \<and> (docs \<noteq> [] \<longrightarrow>
        calculate_confidence docs =
          Inr (binary64 (py_round (min 100 (binary64 (Max (res_score ` set docs) * 100))) 2)))
   \<and> (docs \<noteq> [] \<and> docs' \<noteq> [] \<and> Max (res_score ` set docs) \<le> Max (res_score ` set docs') \<longrightarrow>
        (\<exists>c c'. calculate_confidence docs = Inr c \<and> calculate_confidence docs' = Inr c'
           \<and> c \<le> c'))"
proof (intro conjI impI)
  show "calculate_confidence [] = Inr 0"
    by (simp add: calculate_confidence_def)
next
  assume "docs \<noteq> []"
  then show "calculate_confidence docs =
          Inr (binary64 (py_round (min 100 (binary64 (Max (res_score ` set docs) * 100))) 2))"
    by (rule calculate_confidence_closed)
next
  assume a: "docs \<noteq> [] \<and> docs' \<noteq> [] \<and> Max (res_score ` set docs) \<le> Max (res_score ` set docs')"
  then have "binary64 (py_round (min 100 (binary64 (Max (res_score ` set docs) * 100))) 2)
               \<le> binary64 (py_round (min 100 (binary64 (Max (res_score ` set docs') * 100))) 2)"
    by (intro confidence_value_mono) simp
  with a show "\<exists>c c'. calculate_confidence docs = Inr c \<and> calculate_confidence docs' = Inr c'
           \<and> c \<le> c'"
    by (simp add: calculate_confidence_closed)
qed

theorem confidence_of_results_witness:
  "[half_percent_hit] \<noteq> [] \<and> [close_hit, half_percent_hit] \<noteq> []
   \<and> Max (res_score ` set [half_percent_hit]) \<le> Max (res_score ` set [close_hit, half_percent_hit])
   \<and> calculate_confidence [half_percent_hit] = Inr (2296835809958953 / 4503599627370496)
   \<and> calculate_confidence [close_hit, half_percent_hit] = Inr 90
   \<and> (\<exists>c c'. calculate_confidence [half_percent_hit] = Inr c
          \<and> calculate_confidence [close_hit, half_percent_hit] = Inr c' \<and> c \<le> c')"
proof -
  have h: "[half_percent_hit] \<noteq> [] \<and> [close_hit, half_percent_hit] \<noteq> []
           \<and> Max (res_score ` set [half_percent_hit])
               \<le> Max (res_score ` set [close_hit, half_percent_hit])"
    by (simp add: half_percent_hit_def close_hit_def)
  have m1: "Max (res_score ` set [half_percent_hit]) = 5822253598264577 / 1152921504606846976"
    by (simp add: half_percent_hit_def)
  have m2: "Max (res_score ` set [close_hit, half_percent_hit]) = 9 / 10"
    by (simp add: half_percent_hit_def close_hit_def)
  have v1: "binary64 (py_round (min 100
              (binary64 (5822253598264577 / 1152921504606846976 * 100))) 2)
            = 2296835809958953 / 4503599627370496"
    by code_simp
  have v2: "binary64 (py_round (min 100 (binary64 (9 / 10 * 100))) 2) = 90"
    by code_simp
  note t = confidence_of_results [of "[half_percent_hit]" "[close_hit, half_percent_hit]"]
  note t' = confidence_of_results [of "[close_hit, half_percent_hit]" "[half_percent_hit]"]
  from t h have c1: "calculate_confidence [half_percent_hit] = Inr (2296835809958953 / 4503599627370496)"
    unfolding m1 v1 by blast
  from t' h have c2: "calculate_confidence [close_hit, half_percent_hit] = Inr 90"
    unfolding m2 v2 by blast
  from t h have e: "\<exists>c c'. calculate_confidence [half_percent_hit] = Inr c
          \<and> calculate_confidence [close_hit, half_percent_hit] = Inr c' \<and> c \<le> c'"
    by blast
  from h c1 c2 e show ?thesis
    by blast
qed

section \<open>Claims about the context manager\<close>

text \<open>
  C7. After any sequence of calls on a fresh context manager, the context window holds at
  most 10 history turns and at most 3 documents. When more than 10 turns have been appended
  (since the last clear) the window's history is exactly the 10 most recent ones, and all
  turns otherwise. The window's documents are the three with the highest scores (all of them
  when fewer than three were added): they are in non-increasing score order, they are among
  the documents added, and no document left out scores higher than one in the window.
\<close>

theorem context_window_bounds:
  "length (window_history (get_context_window (context_run (ContextManager_init n) calls))) \<le> 10
   \<and> length (window_documents (get_context_window (context_run (ContextManager_init n) calls))) \<le> 3
   \<and> (10 < length (appended_turns calls) \<longrightarrow>
        window_history (get_context_window (context_run (ContextManager_init n) calls))
          = drop (length (appended_turns calls) - 10) (appended_turns calls)
        \<and> length (window_history (get_context_window (context_run (ContextManager_init n) calls))) = 10)
   \<and> (length (appended_turns calls) \<le> 10 \<longrightarrow>
        window_history (get_context_window (context_run (ContextManager_init n) calls))
          = appended_turns calls)
   \<and> length (window_documents (get_context_window (context_run (ContextManager_init n) calls)))
        = min 3 (length (added_documents calls))
   \<and> sorted_wrt (\<lambda>a b. doc_score b \<le> doc_score a)
        (window_documents (get_context_window (context_run (ContextManager_init n) calls)))
   \<and> mset (window_documents (get_context_window (context_run (ContextManager_init n) calls)))
        \<subseteq># mset (added_documents calls)
   \<and> (\<forall>d e. d \<in># mset (added_documents calls)
                   - mset (window_documents (get_context_window (context_run (ContextManager_init n) calls)))
            \<and> e \<in> set (window_documents (get_context_window (context_run (ContextManager_init n) calls)))
            \<longrightarrow> doc_score d \<le> doc_score e)"
proof -
  let ?cm = "context_run (ContextManager_init n) calls"
  have h: "conversation_history ?cm = appended_turns calls"
    and d: "retrieved_documents ?cm = added_documents calls"
    by (rule context_run_init)+
  have wh: "window_history (get_context_window ?cm) =
              (if length (appended_turns calls) \<le> 10 then appended_turns calls
               else drop (length (appended_turns calls) - 10) (appended_turns calls))"
    by (simp add: window_history_eq h)
  have wd: "window_documents (get_context_window ?cm) =
              take 3 (sorted_reverse doc_score (added_documents calls))"
    by (simp add: window_documents_eq d)
  have "sorted_wrt (\<lambda>a b. doc_score b \<le> doc_score a)
          (take 3 (sorted_reverse doc_score (added_documents calls)))"
    by (rule sorted_wrt_prefix [OF take_is_prefix sorted_reverse_descending])
  moreover have "mset (take 3 (sorted_reverse doc_score (added_documents calls)))
                   \<subseteq># mset (added_documents calls)"
    by (rule take_sorted_reverse_sub)
  moreover have "\<forall>d e. d \<in># mset (added_documents calls)
                   - mset (take 3 (sorted_reverse doc_score (added_documents calls)))
            \<and> e \<in> set (take 3 (sorted_reverse doc_score (added_documents calls)))
            \<longrightarrow> doc_score d \<le> doc_score e"
  proof (intro allI impI)
    fix d e
    assume "d \<in># mset (added_documents calls)
                   - mset (take 3 (sorted_reverse doc_score (added_documents calls)))
            \<and> e \<in> set (take 3 (sorted_reverse doc_score (added_documents calls)))"
    then show "doc_score d \<le> doc_score e"
      using take_sorted_reverse_top [of d "added_documents calls" 3 doc_score e] by simp
  qed
  ultimately show ?thesis
    unfolding wd by (simp add: wh)
qed

theorem context_window_bounds_witness:
  "10 < length (appended_turns fifteen_turns)
   \<and> length (appended_turns fifteen_turns) = 15
   \<and> length (window_history (get_context_window (context_run (ContextManager_init 4096) fifteen_turns))) = 10
   \<and> map msg_timestamp
        (window_history (get_context_window (context_run (ContextManager_init 4096) fifteen_turns)))
       = [5, 6, 7, 8, 9, 10, 11, 12, 13, 14]"
proof -
  have t: "appended_turns fifteen_turns =
             map (\<lambda>i. \<lparr>msg_role = ''user'', msg_content = ''hello'', msg_timestamp = real i,
                        msg_metadata = None\<rparr>) [0..<15]"
    by (simp add: appended_turns_def fifteen_turns_def upt_rec)
  then have l: "10 < length (appended_turns fifteen_turns)"
    and l15: "length (appended_turns fifteen_turns) = 15"
    by simp_all
  from context_window_bounds [of 4096 fifteen_turns] l
  have w: "window_history (get_context_window (context_run (ContextManager_init 4096) fifteen_turns))
             = drop (length (appended_turns fifteen_turns) - 10) (appended_turns fifteen_turns)"
    and w10: "length (window_history (get_context_window (context_run (ContextManager_init 4096) fifteen_turns))) = 10"
    by blast+
  have "map msg_timestamp (drop (length (appended_turns fifteen_turns) - 10) (appended_turns fifteen_turns))
          = [5, 6, 7, 8, 9, 10, 11, 12, 13, 14]"
    unfolding t by (simp add: upt_rec drop_map)
  with w w10 l l15 show ?thesis by simp
qed

text \<open>
  C9. Retrieved documents accumulate across queries: \<open>add_retrieved_documents\<close> appends, no
  call other than \<open>clear_context\<close> removes a document, so the stored list is every document
  added since the last clear, and the window's documents are the top three by score of all of
  them, not of the latest query's results only.
\<close>

theorem documents_accumulate:
  "retrieved_documents (add_retrieved_documents cm ds)
     = retrieved_documents cm @ map to_retrieved ds
   \<and> (call \<noteq> ClearContext \<longrightarrow>
        prefix (retrieved_documents cm) (retrieved_documents (context_step cm call)))
   \<and> retrieved_documents (context_run (ContextManager_init n) calls) = added_documents calls
   \<and> window_documents (get_context_window (context_run (ContextManager_init n) calls))
       = take 3 (sorted_reverse doc_score (added_documents calls))
   \<and> retrieved_documents (context_run (ContextManager_init n) (calls @ [AddRetrievedDocuments ds]))
       = added_documents calls @ map to_retrieved ds"
proof (intro conjI impI)
  show "retrieved_documents (add_retrieved_documents cm ds)
          = retrieved_documents cm @ map to_retrieved ds"
    by (rule add_retrieved_documents_fields)
next
  assume "call \<noteq> ClearContext"
  then have "prefix (retrieved_documents cm) (document_step (retrieved_documents cm) call)"
    by (cases call) simp_all
  then show "prefix (retrieved_documents cm) (retrieved_documents (context_step cm call))"
    by (simp only: context_step_documents)
next
  show "retrieved_documents (context_run (ContextManager_init n) calls) = added_documents calls"
    by (rule context_run_init)
next
  show "window_documents (get_context_window (context_run (ContextManager_init n) calls))
          = take 3 (sorted_reverse doc_score (added_documents calls))"
    by (simp add: window_documents_eq context_run_init)
next
  show "retrieved_documents (context_run (ContextManager_init n) (calls @ [AddRetrievedDocuments ds]))
          = added_documents calls @ map to_retrieved ds"
    by (simp add: context_run_init added_documents_def)
qed

theorem documents_accumulate_witness:
  "AddRetrievedDocuments [weak_document] \<noteq> ClearContext
   \<and> prefix (retrieved_documents (ContextManager_init 4096))
        (retrieved_documents
           (context_step (ContextManager_init 4096) (AddRetrievedDocuments [weak_document])))
   \<and> map doc_id (retrieved_documents (context_run (ContextManager_init 4096) two_queries))
       = [''old'', ''new'']
   \<and> map doc_id (window_documents (get_context_window (context_run (ContextManager_init 4096) two_queries)))
       = [''old'', ''new'']"
proof -
  have c: "AddRetrievedDocuments [weak_document] \<noteq> ClearContext"
    by simp
  have a: "added_documents two_queries = [to_retrieved strong_document, to_retrieved weak_document]"
    by (simp add: added_documents_def two_queries_def)
  have s: "map doc_id (take 3 (sorted_reverse doc_score
             [to_retrieved strong_document, to_retrieved weak_document])) = [''old'', ''new'']"
    by (simp add: sorted_reverse_def to_retrieved_def strong_document_def weak_document_def)
  note t = documents_accumulate [of "ContextManager_init 4096" "[]"
      "AddRetrievedDocuments [weak_document]" 4096 two_queries]
  from t c have p: "prefix (retrieved_documents (ContextManager_init 4096))
        (retrieved_documents
           (context_step (ContextManager_init 4096) (AddRetrievedDocuments [weak_document])))"
    by blast
  from t have "retrieved_documents (context_run (ContextManager_init 4096) two_queries)
                 = added_documents two_queries"
    and "window_documents (get_context_window (context_run (ContextManager_init 4096) two_queries))
           = take 3 (sorted_reverse doc_score (added_documents two_queries))"
    by blast+
  with a s c p show ?thesis
    by (simp add: to_retrieved_def strong_document_def weak_document_def)
qed

section \<open>Claims about the timers\<close>

text \<open>
  C8. \<open>stop_timer\<close> never raises. On a name that has no running timer (never started, as
  in a fresh tracker, or already stopped) it returns 0, leaves the tracker as it is and logs
  one record, at level WARNING. On a running timer it returns the clock reading at the stop
  minus the reading at the start, in seconds, and removes the timer.
\<close>

theorem stop_timer_elapsed:
  "(\<exists>r. stop_timer mt timer_name now = Inr r)
   \<and> stop_timer MetricsTracker_init timer_name now
       = Inr (0, MetricsTracker_init, [TimerNotFound timer_name])
   \<and> (current_timers mt timer_name = None \<longrightarrow>
        stop_timer mt timer_name now = Inr (0, mt, [TimerNotFound timer_name])
        \<and> levelname (TimerNotFound timer_name) = WARNING)
   \<and> (current_timers mt timer_name = Some started \<longrightarrow>
        (\<exists>mt' lg. stop_timer mt timer_name now = Inr (now - started, mt', lg)
           \<and> current_timers mt' timer_name = None))
   \<and> (\<exists>mt' lg. stop_timer (fst (start_timer mt timer_name started)) timer_name now
                   = Inr (now - started, mt', lg))"
proof (intro conjI impI)
  show "\<exists>r. stop_timer mt timer_name now = Inr r"
    by (cases "current_timers mt timer_name")
      (simp_all add: stop_timer_def py_lookup_def py_del_def Let_def)
next
  show "stop_timer MetricsTracker_init timer_name now
          = Inr (0, MetricsTracker_init, [TimerNotFound timer_name])"
    by (simp add: stop_timer_def MetricsTracker_init_def)
next
  assume "current_timers mt timer_name = None"
  then show "stop_timer mt timer_name now = Inr (0, mt, [TimerNotFound timer_name])"
    by (simp add: stop_timer_def)
next
  show "levelname (TimerNotFound timer_name) = WARNING"
    by simp
next
  assume "current_timers mt timer_name = Some started"
  then show "\<exists>mt' lg. stop_timer mt timer_name now = Inr (now - started, mt', lg)
           \<and> current_timers mt' timer_name = None"
    by (simp add: stop_timer_def py_lookup_def py_del_def Let_def)
next
  show "\<exists>mt' lg. stop_timer (fst (start_timer mt timer_name started)) timer_name now
                   = Inr (now - started, mt', lg)"
    by (simp add: stop_timer_def start_timer_def py_lookup_def py_del_def Let_def)
qed

theorem stop_timer_elapsed_witness:
  "current_timers MetricsTracker_init ''total_response'' = None
   \<and> stop_timer MetricsTracker_init ''total_response'' 12
       = Inr (0, MetricsTracker_init, [TimerNotFound ''total_response''])
   \<and> current_timers (fst (start_timer MetricsTracker_init ''total_response'' 10)) ''total_response''
       = Some 10
   \<and> (\<exists>mt' lg. stop_timer (fst (start_timer MetricsTracker_init ''total_response'' 10))
                   ''total_response'' 12 = Inr (12 - 10, mt', lg)
          \<and> current_timers mt' ''total_response'' = None)"
proof -
  have n: "current_timers MetricsTracker_init ''total_response'' = None"
    by (simp add: MetricsTracker_init_def)
  have s: "current_timers (fst (start_timer MetricsTracker_init ''total_response'' 10))
             ''total_response'' = Some 10"
    by (simp add: start_timer_def)
  from stop_timer_elapsed [of MetricsTracker_init "''total_response''" 12 10] n
  have 1: "stop_timer MetricsTracker_init ''total_response'' 12
             = Inr (0, MetricsTracker_init, [TimerNotFound ''total_response''])"
    by blast
  from stop_timer_elapsed [of "fst (start_timer MetricsTracker_init ''total_response'' 10)"
      "''total_response''" 12 10] s
  have 2: "\<exists>mt' lg. stop_timer (fst (start_timer MetricsTracker_init ''total_response'' 10))
                   ''total_response'' 12 = Inr (12 - 10, mt', lg)
          \<and> current_timers mt' ''total_response'' = None"
    by blast
  from n s 1 2 show ?thesis by blast
qed

section \<open>Claims about the chat endpoint\<close>

text \<open>
  C6. For a request with a non-empty message: when the index query raises, and when the
  index replies with zero candidates, the chat endpoint answers with the fallback guidance
  for the message, \<open>documents_retrieved\<close> 0 and an empty \<open>retrieved_documents\<close> list. The
  reported confidence is 80 in the first case and 75 in the second.
\<close>

theorem chat_fallback:
  assumes "query ''message'' = Some user_query" and "user_query \<noteq> ''''"
  shows "(search coll user_query TOP_K_RESULTS None = Inl e \<longrightarrow>
            (\<exists>r st'. chat coll clock query st = (Inr r, st')
               \<and> cr_response r = fallback_response user_query
               \<and> cr_confidence r = 80
               \<and> cr_documents_retrieved r = 0
               \<and> cr_retrieved_documents r = []))
         \<and> (search coll user_query TOP_K_RESULTS None = Inr vr \<and> ids vr = [] # rest \<longrightarrow>
            (\<exists>r st'. chat coll clock query st = (Inr r, st')
               \<and> cr_response r = fallback_response user_query
               \<and> cr_confidence r = 75
               \<and> cr_documents_retrieved r = 0
               \<and> cr_retrieved_documents r = []))"
proof (intro conjI impI)
  assume "search coll user_query TOP_K_RESULTS None = Inl e"
  then have "retrieve coll user_query TOP_K_RESULTS None = Inl e"
    by (rule retrieve_raises)
  from chat_when_retrieve_raises [where query = query and clock = clock and st = st, OF assms this]
  show "\<exists>r st'. chat coll clock query st = (Inr r, st')
               \<and> cr_response r = fallback_response user_query
               \<and> cr_confidence r = 80
               \<and> cr_documents_retrieved r = 0
               \<and> cr_retrieved_documents r = []"
    by auto
next
  assume a: "search coll user_query TOP_K_RESULTS None = Inr vr \<and> ids vr = [] # rest"
  then have "retrieve coll user_query TOP_K_RESULTS None = Inr []"
    by (simp add: retrieve_reply [of coll user_query TOP_K_RESULTS None vr "[]" rest]
        candidates_def slice_to_def sorted_reverse_def)
  from chat_when_retrieve_empty [where query = query and clock = clock and st = st, OF assms this]
  show "\<exists>r st'. chat coll clock query st = (Inr r, st')
               \<and> cr_response r = fallback_response user_query
               \<and> cr_confidence r = 75
               \<and> cr_documents_retrieved r = 0
               \<and> cr_retrieved_documents r = []"
    by auto
qed

theorem chat_fallback_witness:
  "hello_request ''message'' = Some ''hello'' \<and> ''hello'' \<noteq> ''''
   \<and> search failing_collection ''hello'' TOP_K_RESULTS None
       = Inl (ExternalError ''collection unavailable'')
   \<and> (\<exists>r st'. chat failing_collection real hello_request fresh_state = (Inr r, st')
          \<and> cr_response r = fallback_response ''hello''
          \<and> cr_confidence r = 80
          \<and> cr_documents_retrieved r = 0
          \<and> cr_retrieved_documents r = [])
   \<and> search (constant_collection empty_reply) ''hello'' TOP_K_RESULTS None = Inr empty_reply
   \<and> ids empty_reply = [] # []
   \<and> (\<exists>r st'. chat (constant_collection empty_reply) real hello_request fresh_state = (Inr r, st')
          \<and> cr_response r = fallback_response ''hello''
          \<and> cr_confidence r = 75
          \<and> cr_documents_retrieved r = 0
          \<and> cr_retrieved_documents r = [])
   \<and> fallback_response ''hello'' = GENERIC_FALLBACK"
proof -
  have m: "hello_request ''message'' = Some ''hello''"
    by (simp add: hello_request_def)
  have ne: "''hello'' \<noteq> ''''"
    by simp
  have f: "search failing_collection ''hello'' TOP_K_RESULTS None
             = Inl (ExternalError ''collection unavailable'')"
    by (simp add: search_eq failing_collection_def)
  have z: "search (constant_collection empty_reply) ''hello'' TOP_K_RESULTS None = Inr empty_reply"
    by (simp add: search_eq constant_collection_def)
  have i: "ids empty_reply = [] # []"
    by (simp add: empty_reply_def)
  have g: "fallback_response ''hello'' = GENERIC_FALLBACK"
    by (simp add: fallback_response_def py_lower_def lower_char_def Let_def)
  note t1 = chat_fallback [where query = hello_request and user_query = "''hello''"
      and coll = failing_collection and e = "ExternalError ''collection unavailable''"
      and clock = real and st = fresh_state and vr = empty_reply and rest = "[]", OF m ne]
  note t2 = chat_fallback [where query = hello_request and user_query = "''hello''"
      and coll = "constant_collection empty_reply" and e = "ExternalError ''collection unavailable''"
      and clock = real and st = fresh_state and vr = empty_reply and rest = "[]", OF m ne]
  from t1 f have 1: "\<exists>r st'. chat failing_collection real hello_request fresh_state = (Inr r, st')
          \<and> cr_response r = fallback_response ''hello''
          \<and> cr_confidence r = 80
          \<and> cr_documents_retrieved r = 0
          \<and> cr_retrieved_documents r = []"
    by blast
  from t2 z i have 2: "\<exists>r st'. chat (constant_collection empty_reply) real hello_request fresh_state = (Inr r, st')
          \<and> cr_response r = fallback_response ''hello''
          \<and> cr_confidence r = 75
          \<and> cr_documents_retrieved r = 0
          \<and> cr_retrieved_documents r = []"
    by blast
  show ?thesis
    by (intro conjI m ne f z i g 1 2)
qed

end
